theory Spec2Isabelle
  imports Complex_Main
begin

section \<open>Portfolio valuation of the ShowResults component\<close>

text \<open>
  The development embeds \<^verbatim>\<open>updateChartV2\<close> of \<^verbatim>\<open>src/pages/showResults.js\<close>, the function
  that turns the raw quote payloads and the portfolio into the chart series.

  Conventions of the embedding:
  \<^item> A JavaScript number is a \<open>rat\<close>: every finite double is a rational, and the model
    computes without the rounding of double arithmetic. \<open>NaN\<close> and the infinities are
    not values of the model, so a division by a price of zero (which JavaScript answers
    with \<open>Infinity\<close> or \<open>NaN\<close>, HOL with \<open>0\<close>) is outside it: a statement about a quotient
    assumes that the price is not zero, and a statement about the form of a printed
    number also bounds the amounts, with a margin that keeps the doubles finite and below
    \<open>10^21\<close>. The general statements give a number as the product, quotient or sum that
    the code forms, and bound no distance between two numbers.
  \<^item> A date string is a value of a linearly ordered type \<open>'d\<close>: the order is that of the
    instants \<^verbatim>\<open>new Date(a) - new Date(b)\<close> compares, and two date strings are equal
    exactly when their instants are (one format for all quotes, no invalid date).
  \<^item> A \<^verbatim>\<open>Map\<close> and the object \<^verbatim>\<open>newChartSeries\<close> are maps \<open>'k \<rightharpoonup> 'v\<close>; the \<^verbatim>\<open>Set\<close>
    \<^verbatim>\<open>allDates\<close> is a list without duplicates in insertion order.
  \<^item> Reading a property of \<^verbatim>\<open>undefined\<close> throws a \<^verbatim>\<open>TypeError\<close>; arithmetic on
    \<^verbatim>\<open>undefined\<close> gives \<open>NaN\<close>. Both are results \<open>Inl\<close> of the model.
\<close>

subsection \<open>Data\<close>

datatype error = TypeError | NotANumber

record asset =
  symbol :: string
  portion :: rat

record portfolio =
  initial :: rat
  startDate :: string
  assets :: "asset list"

text \<open>One record of a symbol's \<^verbatim>\<open>values\<close> array.\<close>

record 'd tradingDay =
  datetime :: 'd
  close :: rat

text \<open>
  The payload of one symbol: its \<^verbatim>\<open>status\<close> (a payload without the field behaves as one
  with any status other than \<^verbatim>\<open>"ok"\<close>) and its \<^verbatim>\<open>values\<close> array, \<open>None\<close> when the payload
  has none.
\<close>

record 'd payload =
  status :: string
  pvalues :: "'d tradingDay list option"

type_synonym 'd stockData = "string \<rightharpoonup> 'd payload"

text \<open>A point \<^verbatim>\<open>{x: date, y: value.toFixed(2)}\<close> and a series of the chart.\<close>

record 'd point =
  point_x :: 'd
  point_y :: string

record 'd series =
  series_name :: string
  series_type :: string
  series_data :: "'d point list"

text \<open>The state of the component: its \<^verbatim>\<open>useState\<close> cells and the \<^verbatim>\<open>rawStockData\<close> ref.\<close>

record 'd cstate =
  isLoading :: bool
  chartLoaded :: bool
  chartSeries :: "'d series option list option"
  finalTotalValue :: rat
  finalStockValues :: "(string \<times> rat option) list"
  errMsg :: string
  rawStockData :: "'d stockData option"

subsection \<open>Number.prototype.toFixed(2)\<close>

definition digitChar :: "nat \<Rightarrow> char" where
  "digitChar n = ''0123456789'' ! n"

fun decimal :: "nat \<Rightarrow> string" where
  "decimal n = (if n < 10 then [digitChar n] else decimal (n div 10) @ [digitChar (n mod 10)])"

declare decimal.simps [simp del]

text \<open>
  \<^verbatim>\<open>toFixed(2)\<close> takes the sign off. Below \<open>10^21\<close> it picks the integer \<open>n\<close> with
  \<open>n / 100\<close> closest to the number (the larger one of two) and prints \<open>n\<close> with a point
  before its last two digits. From \<open>10^21\<close> on it prints the number as \<^verbatim>\<open>ToString\<close> does, in
  the exponent form: the first significant digit, a point and the other significant digits
  if there are any, \<^verbatim>\<open>e+\<close> and the decimal exponent. (A double of that size is an integer;
  the model prints the significant digits of the integer part of the exact value, which can
  be more digits than the shortest ones JavaScript finds for the double.)
\<close>

definition cents :: "rat \<Rightarrow> nat" where
  "cents v = nat \<lfloor>\<bar>v\<bar> * 100 + 1 / 2\<rfloor>"

definition significant :: "string \<Rightarrow> string" where
  "significant ds = rev (dropWhile (\<lambda>c. c = CHR ''0'') (rev ds))"

definition exponential :: "nat \<Rightarrow> string" where
  "exponential m =
     (let ds = decimal m
      in (case significant ds of
            [] \<Rightarrow> []
          | d # rest \<Rightarrow> d # (if rest = [] then [] else ''.'' @ rest))
         @ ''e+'' @ decimal (length ds - 1))"

definition toFixed2 :: "rat \<Rightarrow> string" where
  "toFixed2 v =
     (let n = cents v
      in (if v < 0 then ''-'' else '''') @
         (if 10 ^ 21 \<le> \<bar>v\<bar> then exponential (nat \<lfloor>\<bar>v\<bar>\<rfloor>)
          else decimal (n div 100) @ ''.''
                 @ [digitChar (n div 10 mod 10), digitChar (n mod 10)]))"

subsection \<open>Loops that may throw\<close>

text \<open>\<^verbatim>\<open>xs.forEach(f)\<close> where \<open>f\<close> updates a state and may throw: the first error ends the loop.\<close>

fun forEachE :: "('a \<Rightarrow> 's \<Rightarrow> error + 's) \<Rightarrow> 'a list \<Rightarrow> 's \<Rightarrow> error + 's" where
  "forEachE f [] s = Inr s"
| "forEachE f (a # as) s = (case f a s of Inl e \<Rightarrow> Inl e | Inr s' \<Rightarrow> forEachE f as s')"

subsection \<open>Fetching the data\<close>

text \<open>
  \<^verbatim>\<open>getRawStockData\<close>: the cached data when there is some, else the sample data, which it
  caches (\<^verbatim>\<open>useSampleData\<close> is the constant \<^verbatim>\<open>true\<close>, so the request to the provider is
  never made). The sample data is a JSON file: a parameter here.
\<close>

definition getRawStockData :: "'d stockData \<Rightarrow> 'd cstate \<Rightarrow> 'd stockData option \<times> 'd cstate" where
  "getRawStockData sampleData st =
     (case rawStockData st of
        Some cached \<Rightarrow> (Some cached, st)
      | None \<Rightarrow> (Some sampleData, st\<lparr>rawStockData := Some sampleData\<rparr>))"

subsection \<open>The blocks of updateChartV2\<close>

definition stockSymbols :: "portfolio \<Rightarrow> string list" where
  "stockSymbols p = map symbol (assets p)"

text \<open>
  Lines 166--171: the message is set for a symbol whose payload is missing or not
  \<^verbatim>\<open>"ok"\<close>; the \<^verbatim>\<open>return\<close> leaves the callback of \<^verbatim>\<open>forEach\<close>, and the loop goes on.
\<close>

definition checkSymbol :: "'d stockData \<Rightarrow> string \<Rightarrow> 'd cstate \<Rightarrow> 'd cstate" where
  "checkSymbol stockData smb st =
     (if (case stockData smb of None \<Rightarrow> True | Some pl \<Rightarrow> status pl \<noteq> ''ok'')
      then st\<lparr>errMsg := ''Sorry, but data could not be retrieved for every stock in your portfolio.''\<rparr>
      else st)"

definition checkRetrieved :: "'d stockData \<Rightarrow> string list \<Rightarrow> 'd cstate \<Rightarrow> 'd cstate" where
  "checkRetrieved stockData syms st = fold (checkSymbol stockData) syms st"

text \<open>
  Lines 176--182: the shares bought of each asset, at the close of the last record. (At a
  close of zero the code stores \<open>Infinity\<close> or \<open>NaN\<close>, for which the model has no value: the
  quotient below is meant for a close other than zero.)
\<close>

definition buyShares ::
  "'d stockData \<Rightarrow> rat \<Rightarrow> asset \<Rightarrow> (string \<rightharpoonup> rat) \<Rightarrow> error + (string \<rightharpoonup> rat)" where
  "buyShares stockData ini a sharesBought =
     (case stockData (symbol a) of
        None \<Rightarrow> Inl TypeError
      | Some pl \<Rightarrow>
          (case pvalues pl of
             None \<Rightarrow> Inl TypeError
           | Some assetData \<Rightarrow>
               (if assetData = [] then Inl TypeError
                else let initialPrice = close (last assetData);
                         amountInvested = portion a * ini
                     in Inr (sharesBought(symbol a \<mapsto> amountInvested / initialPrice)))))"

definition allocate :: "'d stockData \<Rightarrow> portfolio \<Rightarrow> error + (string \<rightharpoonup> rat)" where
  "allocate stockData p = forEachE (buyShares stockData (initial p)) (assets p) Map.empty"

text \<open>Lines 190--204: the value of each stock on each of its dates, and the set of all dates.\<close>

definition setAdd :: "'a \<Rightarrow> 'a list \<Rightarrow> 'a list" where
  "setAdd a as = (if a \<in> set as then as else as @ [a])"

definition mapFromEntries :: "('k \<times> 'v) list \<Rightarrow> ('k \<rightharpoonup> 'v)" where
  "mapFromEntries es = fold (\<lambda>(k, v) m. m(k \<mapsto> v)) es Map.empty"

record 'd valueTable =
  stockValuesByDate :: "string \<rightharpoonup> ('d \<rightharpoonup> rat)"
  allDates :: "'d list"

definition recordDay ::
  "(string \<rightharpoonup> rat) \<Rightarrow> string \<Rightarrow> 'd tradingDay \<Rightarrow> 'd valueTable \<Rightarrow> error + 'd valueTable" where
  "recordDay sharesBought smb tradingDay t =
     (let date = datetime tradingDay;
          closingPrice = close tradingDay
      in case sharesBought smb of
           None \<Rightarrow> Inl NotANumber
         | Some shares \<Rightarrow>
             (let assetValue = shares * closingPrice
              in case stockValuesByDate t smb of
                   None \<Rightarrow> Inl TypeError
                 | Some byDate \<Rightarrow>
                     Inr \<lparr>stockValuesByDate = (stockValuesByDate t)(smb \<mapsto> byDate(date \<mapsto> assetValue)),
                          allDates = setAdd date (allDates t)\<rparr>))"

definition recordSymbol ::
  "'d stockData \<Rightarrow> (string \<rightharpoonup> rat) \<Rightarrow> string \<Rightarrow> 'd valueTable \<Rightarrow> error + 'd valueTable" where
  "recordSymbol stockData sharesBought smb t =
     (case stockData smb of
        None \<Rightarrow> Inl TypeError
      | Some pl \<Rightarrow>
          (case pvalues pl of
             None \<Rightarrow> Inl TypeError
           | Some days \<Rightarrow> forEachE (recordDay sharesBought smb) days t))"

definition tabulate ::
  "'d stockData \<Rightarrow> string list \<Rightarrow> (string \<rightharpoonup> rat) \<Rightarrow> error + 'd valueTable" where
  "tabulate stockData syms sharesBought =
     forEachE (recordSymbol stockData sharesBought) syms
       \<lparr>stockValuesByDate = mapFromEntries (map (\<lambda>smb. (smb, Map.empty)) syms), allDates = []\<rparr>"

text \<open>Lines 209--218: an empty series for each symbol and for the total.\<close>

definition emptySeries :: "string \<Rightarrow> 'd series" where
  "emptySeries sName = \<lparr>series_name = sName, series_type = ''area'', series_data = []\<rparr>"

definition initSeries :: "string list \<Rightarrow> (string \<rightharpoonup> 'd series)" where
  "initSeries seriesNames = fold (\<lambda>sName obj. obj(sName \<mapsto> emptySeries sName)) seriesNames Map.empty"

text \<open>Lines 230--257: the walk over the sorted dates.\<close>

record 'd walkState =
  currentValues :: "string \<rightharpoonup> rat"
  newChartSeries :: "string \<rightharpoonup> 'd series"
  portfolioValue :: rat

definition pushPoint :: "string \<Rightarrow> 'd point \<Rightarrow> (string \<rightharpoonup> 'd series) \<Rightarrow> error + (string \<rightharpoonup> 'd series)" where
  "pushPoint sName pt obj =
     (case obj sName of
        None \<Rightarrow> Inl TypeError
      | Some s \<Rightarrow> Inr (obj(sName \<mapsto> s\<lparr>series_data := series_data s @ [pt]\<rparr>)))"

definition symbolStep ::
  "(string \<rightharpoonup> ('d \<rightharpoonup> rat)) \<Rightarrow> 'd \<Rightarrow> string \<Rightarrow> 'd walkState \<Rightarrow> error + 'd walkState" where
  "symbolStep byDate date smb w =
     (case byDate smb of
        None \<Rightarrow> Inl TypeError
      | Some m \<Rightarrow>
          (case m date of
             None \<Rightarrow> Inr w
           | Some v \<Rightarrow>
               (case pushPoint smb \<lparr>point_x = date, point_y = toFixed2 v\<rparr> (newChartSeries w) of
                  Inl e \<Rightarrow> Inl e
                | Inr obj \<Rightarrow> Inr (w\<lparr>currentValues := (currentValues w)(smb \<mapsto> v), newChartSeries := obj\<rparr>))))"

definition addValue :: "(string \<rightharpoonup> rat) \<Rightarrow> string \<Rightarrow> rat \<Rightarrow> error + rat" where
  "addValue current smb pv =
     (case current smb of None \<Rightarrow> Inl NotANumber | Some v \<Rightarrow> Inr (pv + v))"

definition dateStep ::
  "(string \<rightharpoonup> ('d \<rightharpoonup> rat)) \<Rightarrow> string list \<Rightarrow> 'd \<Rightarrow> 'd walkState \<Rightarrow> error + 'd walkState" where
  "dateStep byDate syms date w =
     (case forEachE (symbolStep byDate date) syms w of
        Inl e \<Rightarrow> Inl e
      | Inr w1 \<Rightarrow>
          (case forEachE (addValue (currentValues w1)) syms 0 of
             Inl e \<Rightarrow> Inl e
           | Inr pv \<Rightarrow>
               (case pushPoint ''Total'' \<lparr>point_x = date, point_y = toFixed2 pv\<rparr> (newChartSeries w1) of
                  Inl e \<Rightarrow> Inl e
                | Inr obj \<Rightarrow> Inr (w1\<lparr>newChartSeries := obj, portfolioValue := pv\<rparr>))))"

definition initWalk :: "string list \<Rightarrow> 'd walkState" where
  "initWalk syms =
     \<lparr>currentValues = mapFromEntries (map (\<lambda>smb. (smb, 0)) syms),
      newChartSeries = initSeries (syms @ [''Total'']),
      portfolioValue = 0\<rparr>"

definition datesSorted :: "('d::linorder) valueTable \<Rightarrow> 'd list" where
  "datesSorted t = sort (allDates t)"

definition walk ::
  "(string \<rightharpoonup> ('d \<rightharpoonup> rat)) \<Rightarrow> string list \<Rightarrow> 'd list \<Rightarrow> 'd walkState \<Rightarrow> error + 'd walkState" where
  "walk byDate syms dates w = forEachE (dateStep byDate syms) dates w"

subsection \<open>The valuation and the component's update\<close>

text \<open>
  \<open>valuationUpTo n\<close> is the state of the computation when the walk has handled the first
  \<open>n\<close> dates; \<open>valuation\<close> is the state after the whole walk.
\<close>

definition valuationUpTo :: "nat \<Rightarrow> ('d::linorder) stockData \<Rightarrow> portfolio \<Rightarrow> error + 'd walkState" where
  "valuationUpTo n stockData p =
     (case allocate stockData p of
        Inl e \<Rightarrow> Inl e
      | Inr sharesBought \<Rightarrow>
          (case tabulate stockData (stockSymbols p) sharesBought of
             Inl e \<Rightarrow> Inl e
           | Inr t \<Rightarrow>
               walk (stockValuesByDate t) (stockSymbols p) (take n (datesSorted t))
                 (initWalk (stockSymbols p))))"

definition timeline :: "('d::linorder) stockData \<Rightarrow> portfolio \<Rightarrow> 'd list" where
  "timeline stockData p =
     (case allocate stockData p of
        Inl e \<Rightarrow> []
      | Inr sharesBought \<Rightarrow>
          (case tabulate stockData (stockSymbols p) sharesBought of
             Inl e \<Rightarrow> []
           | Inr t \<Rightarrow> datesSorted t))"

definition valuation :: "('d::linorder) stockData \<Rightarrow> portfolio \<Rightarrow> error + 'd walkState" where
  "valuation stockData p =
     (case allocate stockData p of
        Inl e \<Rightarrow> Inl e
      | Inr sharesBought \<Rightarrow>
          (case tabulate stockData (stockSymbols p) sharesBought of
             Inl e \<Rightarrow> Inl e
           | Inr t \<Rightarrow>
               walk (stockValuesByDate t) (stockSymbols p) (datesSorted t)
                 (initWalk (stockSymbols p))))"

text \<open>
  \<^verbatim>\<open>updateChartV2\<close>: the new state of the component, and the error when the function threw
  (the state then keeps what was set before the throw).
\<close>

definition updateChartV2 ::
  "('d::linorder) stockData \<Rightarrow> portfolio \<Rightarrow> 'd cstate \<Rightarrow> error option \<times> 'd cstate" where
  "updateChartV2 sampleData p st0 =
     (let st1 = st0\<lparr>isLoading := True\<rparr>
      in case getRawStockData sampleData st1 of
           (None, st2) \<Rightarrow> (None, st2)
         | (Some stockData, st2) \<Rightarrow>
             (let st3 = checkRetrieved stockData (stockSymbols p) st2
              in case valuation stockData p of
                   Inl e \<Rightarrow> (Some e, st3)
                 | Inr w \<Rightarrow>
                     (None,
                      st3\<lparr>chartSeries :=
                            Some (map (newChartSeries w) (stockSymbols p @ [''Total''])),
                          finalStockValues :=
                            map (\<lambda>smb. (smb, currentValues w smb)) (stockSymbols p),
                          finalTotalValue := portfolioValue w,
                          chartLoaded := True,
                          isLoading := False\<rparr>)))"

subsection \<open>What the statements speak of\<close>

text \<open>
  The records of a symbol in the raw data, \<^verbatim>\<open>stockData[symbol].values\<close>; none when the
  payload or its array is missing.
\<close>

definition quotes :: "'d stockData \<Rightarrow> string \<Rightarrow> 'd tradingDay list" where
  "quotes stockData smb =
     (case stockData smb of
        None \<Rightarrow> []
      | Some pl \<Rightarrow> (case pvalues pl of None \<Rightarrow> [] | Some days \<Rightarrow> days))"

text \<open>Every asset of the plan has a payload with at least one record.\<close>

definition retrieved :: "'d stockData \<Rightarrow> portfolio \<Rightarrow> bool" where
  "retrieved stockData p = (\<forall>a \<in> set (assets p). quotes stockData (symbol a) \<noteq> [])"

text \<open>The shares that line 181 stores for an asset.\<close>

definition sharesOf :: "'d stockData \<Rightarrow> rat \<Rightarrow> asset \<Rightarrow> rat" where
  "sharesOf stockData ini a = portion a * ini / close (last (quotes stockData (symbol a)))"

text \<open>
  The \<^verbatim>\<open>Map\<close> from dates to values that lines 196--203 fill for one symbol: a later record
  of a date replaces an earlier one.
\<close>

definition valuesByDate :: "rat \<Rightarrow> 'd tradingDay list \<Rightarrow> ('d \<rightharpoonup> rat) \<Rightarrow> ('d \<rightharpoonup> rat)" where
  "valuesByDate sh days m = fold (\<lambda>t m. m(datetime t \<mapsto> sh * close t)) days m"

text \<open>The dates of all records, in the order in which the loops visit them.\<close>

definition quoteDates :: "'d stockData \<Rightarrow> string list \<Rightarrow> 'd list" where
  "quoteDates stockData syms = concat (map (\<lambda>smb. map datetime (quotes stockData smb)) syms)"

text \<open>The value of a symbol on a date on which it has a quote.\<close>

definition valueOn :: "(string \<rightharpoonup> ('d \<rightharpoonup> rat)) \<Rightarrow> string \<Rightarrow> 'd \<Rightarrow> rat option" where
  "valueOn byDate smb d = (case byDate smb of None \<Rightarrow> None | Some m \<Rightarrow> m d)"

text \<open>
  What the walk has reached after the dates \<open>ds\<close>: the last known value of a symbol
  (\<open>0\<close> before its first quote), the total, the points pushed to a series on the last date
  of \<open>pre\<close> and on all dates, and the state of the walk.
\<close>

definition carried :: "(string \<rightharpoonup> ('d \<rightharpoonup> rat)) \<Rightarrow> string \<Rightarrow> 'd list \<Rightarrow> rat" where
  "carried byDate smb ds =
     fold (\<lambda>d v. case valueOn byDate smb d of Some v' \<Rightarrow> v' | None \<Rightarrow> v) ds 0"

definition totalAt :: "(string \<rightharpoonup> ('d \<rightharpoonup> rat)) \<Rightarrow> string list \<Rightarrow> 'd list \<Rightarrow> rat" where
  "totalAt byDate syms ds = sum_list (map (\<lambda>smb. carried byDate smb ds) syms)"

definition emitted ::
  "(string \<rightharpoonup> ('d \<rightharpoonup> rat)) \<Rightarrow> string list \<Rightarrow> string \<Rightarrow> 'd list \<Rightarrow> 'd point list" where
  "emitted byDate syms sName pre =
     (if sName \<in> set syms
      then (case valueOn byDate sName (last pre) of
              Some v \<Rightarrow> [\<lparr>point_x = last pre, point_y = toFixed2 v\<rparr>]
            | None \<Rightarrow> [])
      else [])
     @ (if sName = ''Total''
        then [\<lparr>point_x = last pre, point_y = toFixed2 (totalAt byDate syms pre)\<rparr>]
        else [])"

definition pointsOf ::
  "(string \<rightharpoonup> ('d \<rightharpoonup> rat)) \<Rightarrow> string list \<Rightarrow> string \<Rightarrow> 'd list \<Rightarrow> 'd point list" where
  "pointsOf byDate syms sName ds =
     concat (map (\<lambda>k. emitted byDate syms sName (take (Suc k) ds)) [0..<length ds])"

definition walked ::
  "(string \<rightharpoonup> ('d \<rightharpoonup> rat)) \<Rightarrow> string list \<Rightarrow> 'd list \<Rightarrow> 'd walkState" where
  "walked byDate syms ds =
     \<lparr>currentValues = (\<lambda>smb. if smb \<in> set syms then Some (carried byDate smb ds) else None),
      newChartSeries =
        (\<lambda>sName. if sName \<in> set syms \<or> sName = ''Total''
                  then Some \<lparr>series_name = sName, series_type = ''area'',
                             series_data = pointsOf byDate syms sName ds\<rparr>
                  else None),
      portfolioValue = (if ds = [] then 0 else totalAt byDate syms ds)\<rparr>"

text \<open>\<^verbatim>\<open>series.data.push(pt)\<close>.\<close>

definition push :: "'d point \<Rightarrow> 'd series \<Rightarrow> 'd series" where
  "push pt s = s\<lparr>series_data := series_data s @ [pt]\<rparr>"

text \<open>The table \<^verbatim>\<open>stockValuesByDate\<close> once lines 195--204 have run.\<close>

definition byDateOf :: "'d stockData \<Rightarrow> string list \<Rightarrow> (string \<rightharpoonup> rat) \<Rightarrow> (string \<rightharpoonup> ('d \<rightharpoonup> rat))" where
  "byDateOf stockData syms sharesBought =
     (\<lambda>s. if s \<in> set syms
           then Some (valuesByDate (the (sharesBought s)) (quotes stockData s) Map.empty)
           else None)"

text \<open>The share count computed for a symbol, \<open>None\<close> when the computation threw before.\<close>

definition sharesFor :: "'d stockData \<Rightarrow> portfolio \<Rightarrow> string \<Rightarrow> rat option" where
  "sharesFor stockData p smb =
     (case allocate stockData p of Inl e \<Rightarrow> None | Inr sharesBought \<Rightarrow> sharesBought smb)"

text \<open>
  Example data. Dates are numbered: \<open>d1 = 1\<close>, \<open>d2 = 2\<close>, \<open>d3 = 3\<close>. A payload lists its
  records from the latest date to the earliest, as the provider does.
\<close>

definition planX :: portfolio where
  "planX = \<lparr>initial = 1000, startDate = ''2013-03-20T00:00:00.000Z'',
            assets = [\<lparr>symbol = ''X'', portion = 1\<rparr>]\<rparr>"

definition dataX :: "nat stockData" where
  "dataX = [''X'' \<mapsto> \<lparr>status = ''ok'',
              pvalues = Some [\<lparr>datetime = 2, close = 150\<rparr>, \<lparr>datetime = 1, close = 100\<rparr>]\<rparr>]"

text \<open>The same quotes listed from the earliest date to the latest.\<close>

definition dataXAscending :: "nat stockData" where
  "dataXAscending = [''X'' \<mapsto> \<lparr>status = ''ok'',
              pvalues = Some [\<lparr>datetime = 1, close = 100\<rparr>, \<lparr>datetime = 2, close = 150\<rparr>]\<rparr>]"

text \<open>
  Two symbols: \<open>A\<close> has quotes on \<open>d1\<close> and \<open>d3\<close> only, \<open>B\<close> on \<open>d1\<close>, \<open>d2\<close> and \<open>d3\<close>.
\<close>

definition planAB :: portfolio where
  "planAB = \<lparr>initial = 200, startDate = ''2013-03-20T00:00:00.000Z'',
             assets = [\<lparr>symbol = ''A'', portion = 1 / 2\<rparr>, \<lparr>symbol = ''B'', portion = 1 / 2\<rparr>]\<rparr>"

definition dataAB :: "nat stockData" where
  "dataAB =
     [''A'' \<mapsto> \<lparr>status = ''ok'',
         pvalues = Some [\<lparr>datetime = 3, close = 20\<rparr>, \<lparr>datetime = 1, close = 10\<rparr>]\<rparr>,
      ''B'' \<mapsto> \<lparr>status = ''ok'',
         pvalues = Some [\<lparr>datetime = 3, close = 7\<rparr>, \<lparr>datetime = 2, close = 6\<rparr>,
                         \<lparr>datetime = 1, close = 5\<rparr>]\<rparr>]"

text \<open>\<open>A\<close> has a single quote, on \<open>d2\<close>; \<open>B\<close> has quotes on \<open>d1\<close> and \<open>d2\<close>.\<close>

definition dataSingle :: "nat stockData" where
  "dataSingle =
     [''A'' \<mapsto> \<lparr>status = ''ok'', pvalues = Some [\<lparr>datetime = 2, close = 10\<rparr>]\<rparr>,
      ''B'' \<mapsto> \<lparr>status = ''ok'',
         pvalues = Some [\<lparr>datetime = 2, close = 6\<rparr>, \<lparr>datetime = 1, close = 5\<rparr>]\<rparr>]"

text \<open>The value of a symbol that the walk holds when it has handled the first \<open>n\<close> dates.\<close>

definition currentValueUpTo ::
  "nat \<Rightarrow> ('d::linorder) stockData \<Rightarrow> portfolio \<Rightarrow> string \<Rightarrow> rat option" where
  "currentValueUpTo n stockData p smb =
     (case valuationUpTo n stockData p of Inl e \<Rightarrow> None | Inr w \<Rightarrow> currentValues w smb)"

text \<open>The format of \<^verbatim>\<open>toFixed(2)\<close>: an optional sign, digits, a point, two digits.\<close>

definition isDigit :: "char \<Rightarrow> bool" where
  "isDigit c = (c \<in> set ''0123456789'')"

definition unsigned :: "string \<Rightarrow> string" where
  "unsigned s = (case s of [] \<Rightarrow> [] | c # r \<Rightarrow> if c = CHR ''-'' then r else s)"

definition twoDecimals :: "string \<Rightarrow> bool" where
  "twoDecimals s =
     (let u = unsigned s; n = length u
      in 4 \<le> n \<and> list_all isDigit (take (n - 3) u) \<and> u ! (n - 3) = CHR ''.'' \<and>
         list_all isDigit (drop (n - 2) u))"

text \<open>The number that a string in this format denotes.\<close>

definition digitValue :: "char \<Rightarrow> nat" where
  "digitValue c = length (takeWhile (\<lambda>d. d \<noteq> c) ''0123456789'')"

definition parseNat :: "string \<Rightarrow> nat" where
  "parseNat s = foldl (\<lambda>n c. 10 * n + digitValue c) 0 s"

definition parseFixed :: "string \<Rightarrow> rat" where
  "parseFixed s =
     (let u = unsigned s; n = length u
      in (if u = s then 1 else - 1) *
         (of_nat (parseNat (take (n - 3) u)) + of_nat (parseNat (drop (n - 2) u)) / 100))"

text \<open>The string of \<open>n\<close> hundredths, without a sign.\<close>

definition fixedBody :: "nat \<Rightarrow> string" where
  "fixedBody n = decimal (n div 100) @ ''.'' @ [digitChar (n div 10 mod 10), digitChar (n mod 10)]"

text \<open>The points of a series of the result, \<open>None\<close> when there is no such series.\<close>

definition seriesData :: "('d::linorder) stockData \<Rightarrow> portfolio \<Rightarrow> string \<Rightarrow> 'd point list option" where
  "seriesData stockData p sName =
     (case valuation stockData p of
        Inl e \<Rightarrow> None
      | Inr w \<Rightarrow> map_option series_data (newChartSeries w sName))"

text \<open>Every symbol of the plan was bought at a price other than zero.\<close>

definition priced :: "'d stockData \<Rightarrow> portfolio \<Rightarrow> bool" where
  "priced stockData p = (\<forall>a \<in> set (assets p). close (last (quotes stockData (symbol a))) \<noteq> 0)"

text \<open>
  Four symbols with a quarter of 100 each, bought at 1 on \<open>d1\<close> and quoted at 1.00016 on
  \<open>d2\<close>.
\<close>

definition plan4 :: portfolio where
  "plan4 = \<lparr>initial = 100, startDate = ''2013-03-20T00:00:00.000Z'',
            assets = [\<lparr>symbol = ''A'', portion = 1 / 4\<rparr>, \<lparr>symbol = ''B'', portion = 1 / 4\<rparr>,
                      \<lparr>symbol = ''C'', portion = 1 / 4\<rparr>, \<lparr>symbol = ''D'', portion = 1 / 4\<rparr>]\<rparr>"

definition payload4 :: "nat payload" where
  "payload4 = \<lparr>status = ''ok'',
       pvalues = Some [\<lparr>datetime = 2, close = 100016 / 100000\<rparr>, \<lparr>datetime = 1, close = 1\<rparr>]\<rparr>"

definition data4 :: "nat stockData" where
  "data4 = [''A'' \<mapsto> payload4, ''B'' \<mapsto> payload4, ''C'' \<mapsto> payload4, ''D'' \<mapsto> payload4]"

text \<open>
  The amounts of a plan stay in the range in which \<^verbatim>\<open>toFixed(2)\<close> prints the fixed
  notation: every symbol was bought at a price other than zero; the amount invested in it
  and its share count are below \<open>10^20\<close> in magnitude; and so is each of its values, times
  the number of assets. (The factor leaves room for the total, and \<open>10^20\<close> for the rounding
  of the doubles, which keeps them below \<open>10^21\<close>.)
\<close>

definition amountsBounded :: "'d stockData \<Rightarrow> portfolio \<Rightarrow> bool" where
  "amountsBounded stockData p =
     (\<forall>a \<in> set (assets p).
        close (last (quotes stockData (symbol a))) \<noteq> 0 \<and>
        \<bar>portion a * initial p\<bar> < 10 ^ 20 \<and>
        \<bar>sharesOf stockData (initial p) a\<bar> < 10 ^ 20 \<and>
        (\<forall>t \<in> set (quotes stockData (symbol a)).
           of_nat (length (assets p)) * \<bar>sharesOf stockData (initial p) a * close t\<bar> < 10 ^ 20))"

text \<open>One symbol, all of \<open>10^21\<close> invested at a price of 1.\<close>

definition planLarge :: portfolio where
  "planLarge = \<lparr>initial = 1000000000000000000000, startDate = ''2013-03-20T00:00:00.000Z'',
                assets = [\<lparr>symbol = ''X'', portion = 1\<rparr>]\<rparr>"

definition dataLarge :: "nat stockData" where
  "dataLarge = [''X'' \<mapsto> \<lparr>status = ''ok'', pvalues = Some [\<lparr>datetime = 1, close = 1\<rparr>]\<rparr>]"

text \<open>The state of the component before the first click on ``Load chart''.\<close>

definition initialState :: "'d cstate" where
  "initialState =
     \<lparr>isLoading = False, chartLoaded = False, chartSeries = None, finalTotalValue = 0,
      finalStockValues = [], errMsg = '''', rawStockData = None\<rparr>"

text \<open>The payload of \<open>X\<close> carries its quotes and a status that is not \<^verbatim>\<open>"ok"\<close>.\<close>

definition dataXError :: "nat stockData" where
  "dataXError = [''X'' \<mapsto> \<lparr>status = ''error'',
              pvalues = Some [\<lparr>datetime = 2, close = 150\<rparr>, \<lparr>datetime = 1, close = 100\<rparr>]\<rparr>]"

text \<open>The data a run of \<^verbatim>\<open>updateChartV2\<close> works on: the cached data, else the sample data.\<close>

definition dataUsed :: "'d stockData \<Rightarrow> 'd cstate \<Rightarrow> 'd stockData" where
  "dataUsed sampleData st = (case rawStockData st of Some cached \<Rightarrow> cached | None \<Rightarrow> sampleData)"

text \<open>
  A plan with a symbol that is named \<open>Total\<close>: it has one quote, on \<open>d1\<close>, and \<open>B\<close> has quotes
  on \<open>d1\<close> and \<open>d2\<close>.
\<close>

definition planTotal :: portfolio where
  "planTotal = \<lparr>initial = 200, startDate = ''2013-03-20T00:00:00.000Z'',
                assets = [\<lparr>symbol = ''Total'', portion = 1 / 2\<rparr>, \<lparr>symbol = ''B'', portion = 1 / 2\<rparr>]\<rparr>"

definition dataTotal :: "nat stockData" where
  "dataTotal =
     [''Total'' \<mapsto> \<lparr>status = ''ok'', pvalues = Some [\<lparr>datetime = 1, close = 10\<rparr>]\<rparr>,
      ''B'' \<mapsto> \<lparr>status = ''ok'',
         pvalues = Some [\<lparr>datetime = 2, close = 6\<rparr>, \<lparr>datetime = 1, close = 5\<rparr>]\<rparr>]"

subsection \<open>Loops\<close>

lemma forEachE_Inr_each:
  "forEachE f xs s = Inr s' \<Longrightarrow> x \<in> set xs \<Longrightarrow> \<exists>s1 s2. f x s1 = Inr s2"
  by (induction xs arbitrary: s) (auto split: sum.splits)

subsection \<open>The shares bought\<close>

lemma buyShares_ok:
  "quotes stockData (symbol a) \<noteq> [] \<Longrightarrow>
   buyShares stockData ini a m = Inr (m(symbol a \<mapsto> sharesOf stockData ini a))"
  by (auto simp: buyShares_def quotes_def sharesOf_def split: option.splits)

lemma buyShares_Inr:
  "buyShares stockData ini a m = Inr m' \<Longrightarrow> quotes stockData (symbol a) \<noteq> []"
  by (auto simp: buyShares_def quotes_def split: option.splits if_splits)

lemma buyShares_error:
  "buyShares stockData ini a m = Inl e \<Longrightarrow> e = TypeError"
  by (auto simp: buyShares_def Let_def split: option.splits if_splits)

lemma allocate_loop:
  assumes "\<forall>a \<in> set as. quotes stockData (symbol a) \<noteq> []"
  shows "forEachE (buyShares stockData ini) as m =
         Inr (fold (\<lambda>a m. m(symbol a \<mapsto> sharesOf stockData ini a)) as m)"
  using assms by (induction as arbitrary: m) (auto simp: buyShares_ok)

lemma fold_shares_notin:
  "s \<notin> symbol ` set as \<Longrightarrow> fold (\<lambda>a m. m(symbol a \<mapsto> f a)) as m s = m s"
  by (induction as arbitrary: m) auto

lemma fold_shares_dom:
  "dom (fold (\<lambda>a m. m(symbol a \<mapsto> f a)) as m) = dom m \<union> symbol ` set as"
  by (induction as arbitrary: m) auto

lemma fold_shares_distinct:
  "distinct (map symbol as) \<Longrightarrow> a \<in> set as \<Longrightarrow>
   fold (\<lambda>a m. m(symbol a \<mapsto> f a)) as m (symbol a) = Some (f a)"
proof (induction as arbitrary: m)
  case Nil
  then show ?case by simp
next
  case (Cons b bs)
  show ?case
  proof (cases "a = b")
    case True
    with Cons.prems have "symbol a \<notin> symbol ` set bs" by auto
    then have "fold (\<lambda>a m. m(symbol a \<mapsto> f a)) bs (m(symbol b \<mapsto> f b)) (symbol a) =
               (m(symbol b \<mapsto> f b)) (symbol a)"
      by (rule fold_shares_notin)
    then show ?thesis using True by (simp add: fun_upd_same del: fun_upd_apply)
  next
    case False
    with Cons show ?thesis by auto
  qed
qed

lemma allocate_retrieved:
  "retrieved stockData p \<Longrightarrow>
   allocate stockData p =
     Inr (fold (\<lambda>a m. m(symbol a \<mapsto> sharesOf stockData (initial p) a)) (assets p) Map.empty)"
  unfolding allocate_def retrieved_def by (rule allocate_loop)

lemma allocate_Inr_retrieved:
  assumes "allocate stockData p = Inr m"
  shows "retrieved stockData p"
  unfolding retrieved_def
proof
  fix a assume "a \<in> set (assets p)"
  with assms obtain s1 s2 where "buyShares stockData (initial p) a s1 = Inr s2"
    unfolding allocate_def by (blast dest: forEachE_Inr_each)
  then show "quotes stockData (symbol a) \<noteq> []" by (rule buyShares_Inr)
qed

lemma allocate_dom:
  assumes "allocate stockData p = Inr m"
  shows "dom m = set (stockSymbols p)"
proof -
  have "m = fold (\<lambda>a m. m(symbol a \<mapsto> sharesOf stockData (initial p) a)) (assets p) Map.empty"
    using assms allocate_retrieved [OF allocate_Inr_retrieved [OF assms]] by simp
  then have "dom m = dom (Map.empty :: string \<rightharpoonup> rat) \<union> symbol ` set (assets p)"
    by (simp only: fold_shares_dom)
  then show ?thesis by (simp add: stockSymbols_def)
qed

lemma allocate_shares:
  assumes "allocate stockData p = Inr m" "distinct (stockSymbols p)" "a \<in> set (assets p)"
  shows "m (symbol a) = Some (sharesOf stockData (initial p) a)"
proof -
  have "m = fold (\<lambda>a m. m(symbol a \<mapsto> sharesOf stockData (initial p) a)) (assets p) Map.empty"
    using assms(1) allocate_retrieved [OF allocate_Inr_retrieved [OF assms(1)]] by simp
  moreover have "distinct (map symbol (assets p))"
    using assms(2) by (simp add: stockSymbols_def)
  ultimately show ?thesis
    using assms(3) by (simp only: fold_shares_distinct)
qed

lemma forEachE_error:
  "forEachE f xs s = Inl e \<Longrightarrow> \<exists>x s1. x \<in> set xs \<and> f x s1 = Inl e"
proof (induction xs arbitrary: s)
  case Nil
  then show ?case by simp
next
  case (Cons a as)
  show ?case
  proof (cases "f a s")
    case (Inl e')
    with Cons.prems have "f a s = Inl e" by simp
    then show ?thesis by (intro exI [of _ a] exI [of _ s]) simp
  next
    case (Inr s')
    with Cons.prems have "forEachE f as s' = Inl e" by simp
    from Cons.IH [OF this] obtain x s1 where "x \<in> set as" "f x s1 = Inl e" by blast
    then show ?thesis by (intro exI [of _ x] exI [of _ s1]) simp
  qed
qed

lemma allocate_error: "allocate stockData p = Inl e \<Longrightarrow> e = TypeError"
  unfolding allocate_def by (blast dest: forEachE_error buyShares_error)

subsection \<open>The values by date\<close>

lemma valuesByDate_Nil [simp]: "valuesByDate sh [] m = m"
  by (simp add: valuesByDate_def)

lemma valuesByDate_Cons [simp]:
  "valuesByDate sh (t # days) m = valuesByDate sh days (m(datetime t \<mapsto> sh * close t))"
  by (simp add: valuesByDate_def)

lemma valuesByDate_dom: "dom (valuesByDate sh days m) = dom m \<union> datetime ` set days"
  by (induction days arbitrary: m) auto

lemma valuesByDate_Some:
  "valuesByDate sh days m d = Some v \<Longrightarrow>
   m d = Some v \<or> (\<exists>t \<in> set days. datetime t = d \<and> v = sh * close t)"
proof (induction days arbitrary: m)
  case Nil
  then show ?case by simp
next
  case (Cons t days)
  from Cons.prems have "valuesByDate sh days (m(datetime t \<mapsto> sh * close t)) d = Some v"
    by simp
  from Cons.IH [OF this] show ?case by (auto split: if_splits)
qed

lemma set_fold_setAdd: "set (fold setAdd xs ys) = set ys \<union> set xs"
  by (induction xs arbitrary: ys) (auto simp: setAdd_def)

lemma distinct_fold_setAdd: "distinct ys \<Longrightarrow> distinct (fold setAdd xs ys)"
  by (induction xs arbitrary: ys) (auto simp: setAdd_def)

lemma recordDays:
  assumes "sharesBought smb = Some sh" and "stockValuesByDate t smb = Some m0"
  shows "forEachE (recordDay sharesBought smb) days t =
         Inr \<lparr>stockValuesByDate = (stockValuesByDate t)(smb \<mapsto> valuesByDate sh days m0),
              allDates = fold setAdd (map datetime days) (allDates t)\<rparr>"
  using assms
proof (induction days arbitrary: t m0)
  case Nil
  then show ?case by (simp add: fun_upd_idem)
next
  case (Cons a days)
  let ?t1 = "\<lparr>stockValuesByDate = (stockValuesByDate t)(smb \<mapsto> m0(datetime a \<mapsto> sh * close a)),
              allDates = setAdd (datetime a) (allDates t)\<rparr>"
  have step: "recordDay sharesBought smb a t = Inr ?t1"
    using Cons.prems by (simp add: recordDay_def Let_def)
  have "forEachE (recordDay sharesBought smb) days ?t1 =
        Inr \<lparr>stockValuesByDate = (stockValuesByDate ?t1)(smb \<mapsto> valuesByDate sh days (m0(datetime a \<mapsto> sh * close a))),
             allDates = fold setAdd (map datetime days) (allDates ?t1)\<rparr>"
    by (rule Cons.IH) (use Cons.prems in \<open>simp_all add: fun_eq_iff\<close>)
  with step show ?case by (simp add: fun_eq_iff)
qed

lemma recordSymbol_ok:
  assumes "quotes stockData smb \<noteq> []" and "sharesBought smb = Some sh"
    and "stockValuesByDate t smb = Some m0"
  shows "recordSymbol stockData sharesBought smb t =
         Inr \<lparr>stockValuesByDate = (stockValuesByDate t)(smb \<mapsto> valuesByDate sh (quotes stockData smb) m0),
              allDates = fold setAdd (map datetime (quotes stockData smb)) (allDates t)\<rparr>"
proof -
  from assms(1) obtain pl where "stockData smb = Some pl" "pvalues pl = Some (quotes stockData smb)"
    by (auto simp: quotes_def split: option.splits)
  then show ?thesis
    using recordDays [of sharesBought smb sh t m0, OF assms(2,3)] by (simp add: recordSymbol_def)
qed

lemma tabulate_loop:
  assumes "distinct ss"
    and "\<forall>s \<in> set ss. quotes stockData s \<noteq> [] \<and> sharesBought s \<noteq> None \<and>
           stockValuesByDate t s = Some Map.empty"
  shows "\<exists>t'. forEachE (recordSymbol stockData sharesBought) ss t = Inr t' \<and>
           (\<forall>s. stockValuesByDate t' s =
                 (if s \<in> set ss
                  then Some (valuesByDate (the (sharesBought s)) (quotes stockData s) Map.empty)
                  else stockValuesByDate t s)) \<and>
           allDates t' = fold setAdd (quoteDates stockData ss) (allDates t)"
  using assms
proof (induction ss arbitrary: t)
  case Nil
  then show ?case by (simp add: quoteDates_def)
next
  case (Cons a ss)
  from Cons.prems obtain sh where sh: "sharesBought a = Some sh" by auto
  let ?t1 = "\<lparr>stockValuesByDate = (stockValuesByDate t)(a \<mapsto> valuesByDate sh (quotes stockData a) Map.empty),
              allDates = fold setAdd (map datetime (quotes stockData a)) (allDates t)\<rparr>"
  have step: "recordSymbol stockData sharesBought a t = Inr ?t1"
    using Cons.prems sh by (intro recordSymbol_ok) auto
  have "\<exists>t'. forEachE (recordSymbol stockData sharesBought) ss ?t1 = Inr t' \<and>
           (\<forall>s. stockValuesByDate t' s =
                 (if s \<in> set ss
                  then Some (valuesByDate (the (sharesBought s)) (quotes stockData s) Map.empty)
                  else stockValuesByDate ?t1 s)) \<and>
           allDates t' = fold setAdd (quoteDates stockData ss) (allDates ?t1)"
    by (rule Cons.IH) (use Cons.prems in auto)
  then obtain t' where t': "forEachE (recordSymbol stockData sharesBought) ss ?t1 = Inr t'"
    "\<And>s. stockValuesByDate t' s =
                 (if s \<in> set ss
                  then Some (valuesByDate (the (sharesBought s)) (quotes stockData s) Map.empty)
                  else stockValuesByDate ?t1 s)"
    "allDates t' = fold setAdd (quoteDates stockData ss) (allDates ?t1)"
    by blast
  have "forEachE (recordSymbol stockData sharesBought) (a # ss) t = Inr t'"
    using step t'(1) by simp
  moreover have "\<forall>s. stockValuesByDate t' s =
                 (if s \<in> set (a # ss)
                  then Some (valuesByDate (the (sharesBought s)) (quotes stockData s) Map.empty)
                  else stockValuesByDate t s)"
    using t'(2) sh by simp
  moreover have "allDates t' = fold setAdd (quoteDates stockData (a # ss)) (allDates t)"
    using t'(3) by (simp add: quoteDates_def)
  ultimately show ?case by blast
qed

lemma fold_entries_const:
  "fold (\<lambda>(k, v) m. m(k \<mapsto> v)) (map (\<lambda>s. (s, c)) ss) m =
   (\<lambda>s. if s \<in> set ss then Some c else m s)"
  by (induction ss arbitrary: m) (auto simp: fun_eq_iff)

lemma mapFromEntries_const:
  "mapFromEntries (map (\<lambda>s. (s, c)) ss) = (\<lambda>s. if s \<in> set ss then Some c else None)"
  by (simp add: mapFromEntries_def fold_entries_const)

lemma tabulate_ok:
  assumes "distinct syms"
    and "\<forall>s \<in> set syms. quotes stockData s \<noteq> [] \<and> sharesBought s \<noteq> None"
  shows "\<exists>t. tabulate stockData syms sharesBought = Inr t \<and>
           stockValuesByDate t =
             (\<lambda>s. if s \<in> set syms
                   then Some (valuesByDate (the (sharesBought s)) (quotes stockData s) Map.empty)
                   else None) \<and>
           allDates t = fold setAdd (quoteDates stockData syms) []"
proof -
  let ?t0 = "\<lparr>stockValuesByDate = mapFromEntries (map (\<lambda>smb. (smb, Map.empty)) syms),
              allDates = ([] :: 'a list)\<rparr>"
  have "\<exists>t'. forEachE (recordSymbol stockData sharesBought) syms ?t0 = Inr t' \<and>
           (\<forall>s. stockValuesByDate t' s =
                 (if s \<in> set syms
                  then Some (valuesByDate (the (sharesBought s)) (quotes stockData s) Map.empty)
                  else stockValuesByDate ?t0 s)) \<and>
           allDates t' = fold setAdd (quoteDates stockData syms) (allDates ?t0)"
    by (rule tabulate_loop) (use assms in \<open>auto simp: mapFromEntries_const\<close>)
  then show ?thesis
    by (auto simp: tabulate_def mapFromEntries_const fun_eq_iff)
qed

lemma set_quoteDates:
  "set (quoteDates stockData syms) = (\<Union>s \<in> set syms. datetime ` set (quotes stockData s))"
  by (auto simp: quoteDates_def)

subsection \<open>The walk over the dates\<close>

lemma carried_Nil [simp]: "carried byDate smb [] = 0"
  by (simp add: carried_def)

lemma carried_snoc:
  "carried byDate smb (ds @ [d]) =
     (case valueOn byDate smb d of Some v \<Rightarrow> v | None \<Rightarrow> carried byDate smb ds)"
  unfolding carried_def by simp

lemma pointsOf_Nil [simp]: "pointsOf byDate syms sName [] = []"
  by (simp add: pointsOf_def)

lemma pointsOf_snoc:
  "pointsOf byDate syms sName (ds @ [d]) =
     pointsOf byDate syms sName ds @ emitted byDate syms sName (ds @ [d])"
proof -
  have same: "map (\<lambda>k. emitted byDate syms sName (take (Suc k) (ds @ [d]))) [0..<length ds] =
        map (\<lambda>k. emitted byDate syms sName (take (Suc k) ds)) [0..<length ds]"
    by (rule map_cong) auto
  have "pointsOf byDate syms sName (ds @ [d]) =
        concat (map (\<lambda>k. emitted byDate syms sName (take (Suc k) (ds @ [d]))) [0..<length ds])
        @ emitted byDate syms sName (ds @ [d])"
    unfolding pointsOf_def by (simp del: take_append)
  then show ?thesis
    unfolding same pointsOf_def .
qed

lemma pushPoint_ok: "obj sName = Some s \<Longrightarrow> pushPoint sName pt obj = Inr (obj(sName \<mapsto> push pt s))"
  by (simp add: pushPoint_def push_def)

lemma symbolStep_ok:
  assumes "byDate smb \<noteq> None" and "newChartSeries w smb \<noteq> None"
  shows "symbolStep byDate d smb w =
         Inr (case valueOn byDate smb d of
                None \<Rightarrow> w
              | Some v \<Rightarrow>
                  w\<lparr>currentValues := (currentValues w)(smb \<mapsto> v),
                    newChartSeries := (newChartSeries w)(smb \<mapsto>
                       push \<lparr>point_x = d, point_y = toFixed2 v\<rparr> (the (newChartSeries w smb)))\<rparr>)"
  using assms
  by (auto simp: symbolStep_def valueOn_def pushPoint_ok split: option.splits)

lemma symbolLoop:
  assumes "distinct ss"
    and "\<forall>s \<in> set ss. byDate s \<noteq> None \<and> newChartSeries w s \<noteq> None"
  shows "\<exists>w'. forEachE (symbolStep byDate d) ss w = Inr w' \<and>
           currentValues w' =
             (\<lambda>s. if s \<in> set ss
                   then (case valueOn byDate s d of Some v \<Rightarrow> Some v | None \<Rightarrow> currentValues w s)
                   else currentValues w s) \<and>
           newChartSeries w' =
             (\<lambda>n. if n \<in> set ss
                   then (case valueOn byDate n d of
                           Some v \<Rightarrow> map_option (push \<lparr>point_x = d, point_y = toFixed2 v\<rparr>) (newChartSeries w n)
                         | None \<Rightarrow> newChartSeries w n)
                   else newChartSeries w n) \<and>
           portfolioValue w' = portfolioValue w"
  using assms
proof (induction ss arbitrary: w)
  case Nil
  then show ?case by simp
next
  case (Cons a ss)
  let ?w1 = "case valueOn byDate a d of
                None \<Rightarrow> w
              | Some v \<Rightarrow>
                  w\<lparr>currentValues := (currentValues w)(a \<mapsto> v),
                    newChartSeries := (newChartSeries w)(a \<mapsto>
                       push \<lparr>point_x = d, point_y = toFixed2 v\<rparr> (the (newChartSeries w a)))\<rparr>"
  have step: "symbolStep byDate d a w = Inr ?w1"
    using Cons.prems by (intro symbolStep_ok) auto
  have cv1: "currentValues ?w1 =
      (\<lambda>s. if s = a then (case valueOn byDate a d of Some v \<Rightarrow> Some v | None \<Rightarrow> currentValues w a)
            else currentValues w s)"
    by (auto simp: fun_eq_iff split: option.splits)
  have ncs1: "newChartSeries ?w1 =
      (\<lambda>n. if n = a
            then (case valueOn byDate a d of
                    Some v \<Rightarrow> map_option (push \<lparr>point_x = d, point_y = toFixed2 v\<rparr>) (newChartSeries w a)
                  | None \<Rightarrow> newChartSeries w a)
            else newChartSeries w n)"
    using Cons.prems by (auto simp: fun_eq_iff split: option.splits)
  have pv1: "portfolioValue ?w1 = portfolioValue w"
    by (auto split: option.splits)
  have "\<forall>s \<in> set ss. byDate s \<noteq> None \<and> newChartSeries ?w1 s \<noteq> None"
    using Cons.prems by (auto simp: ncs1)
  with Cons.IH [of ?w1] Cons.prems obtain w' where
    w': "forEachE (symbolStep byDate d) ss ?w1 = Inr w'"
    "currentValues w' =
             (\<lambda>s. if s \<in> set ss
                   then (case valueOn byDate s d of Some v \<Rightarrow> Some v | None \<Rightarrow> currentValues ?w1 s)
                   else currentValues ?w1 s)"
    "newChartSeries w' =
             (\<lambda>n. if n \<in> set ss
                   then (case valueOn byDate n d of
                           Some v \<Rightarrow> map_option (push \<lparr>point_x = d, point_y = toFixed2 v\<rparr>) (newChartSeries ?w1 n)
                         | None \<Rightarrow> newChartSeries ?w1 n)
                   else newChartSeries ?w1 n)"
    "portfolioValue w' = portfolioValue ?w1"
    by auto
  have "forEachE (symbolStep byDate d) (a # ss) w = Inr w'"
    using step w'(1) by simp
  moreover have "currentValues w' =
             (\<lambda>s. if s \<in> set (a # ss)
                   then (case valueOn byDate s d of Some v \<Rightarrow> Some v | None \<Rightarrow> currentValues w s)
                   else currentValues w s)"
    unfolding w'(2) cv1 using Cons.prems(1) by (auto simp: fun_eq_iff split: option.splits)
  moreover have "newChartSeries w' =
             (\<lambda>n. if n \<in> set (a # ss)
                   then (case valueOn byDate n d of
                           Some v \<Rightarrow> map_option (push \<lparr>point_x = d, point_y = toFixed2 v\<rparr>) (newChartSeries w n)
                         | None \<Rightarrow> newChartSeries w n)
                   else newChartSeries w n)"
    unfolding w'(3) ncs1 using Cons.prems(1) by (auto simp: fun_eq_iff split: option.splits)
  moreover have "portfolioValue w' = portfolioValue w"
    using w'(4) pv1 by simp
  ultimately show ?case by blast
qed

lemma addValue_loop:
  "\<forall>s \<in> set ss. cv s \<noteq> None \<Longrightarrow>
   forEachE (addValue cv) ss a = Inr (a + sum_list (map (\<lambda>s. the (cv s)) ss))"
  by (induction ss arbitrary: a) (auto simp: addValue_def)

lemma fold_initSeries:
  "fold (\<lambda>sName obj. obj(sName \<mapsto> emptySeries sName)) names m =
   (\<lambda>n. if n \<in> set names then Some (emptySeries n) else m n)"
  by (induction names arbitrary: m) (auto simp: fun_eq_iff)

lemma initSeries_eq:
  "initSeries names = (\<lambda>n. if n \<in> set names then Some (emptySeries n) else None)"
  by (simp add: initSeries_def fold_initSeries)

lemma initWalk_walked: "initWalk syms = walked byDate syms []"
  by (auto simp: initWalk_def walked_def mapFromEntries_const initSeries_eq emptySeries_def fun_eq_iff)

lemma dateStep_walked:
  assumes "distinct syms" and "\<forall>s \<in> set syms. byDate s \<noteq> None"
  shows "dateStep byDate syms d (walked byDate syms ds) = Inr (walked byDate syms (ds @ [d]))"
proof -
  let ?w = "walked byDate syms ds"
  have "\<forall>s \<in> set syms. byDate s \<noteq> None \<and> newChartSeries ?w s \<noteq> None"
    using assms(2) by (simp add: walked_def)
  from symbolLoop [OF assms(1) this, of d] obtain w1 where
    loop: "forEachE (symbolStep byDate d) syms ?w = Inr w1"
    and cv: "currentValues w1 =
             (\<lambda>s. if s \<in> set syms
                   then (case valueOn byDate s d of Some v \<Rightarrow> Some v | None \<Rightarrow> currentValues ?w s)
                   else currentValues ?w s)"
    and ncs: "newChartSeries w1 =
             (\<lambda>n. if n \<in> set syms
                   then (case valueOn byDate n d of
                           Some v \<Rightarrow> map_option (push \<lparr>point_x = d, point_y = toFixed2 v\<rparr>) (newChartSeries ?w n)
                         | None \<Rightarrow> newChartSeries ?w n)
                   else newChartSeries ?w n)"
    by blast
  have cv': "currentValues w1 =
      (\<lambda>s. if s \<in> set syms then Some (carried byDate s (ds @ [d])) else None)"
    unfolding cv by (auto simp: fun_eq_iff walked_def carried_snoc split: option.splits)
  have "\<forall>s \<in> set syms. currentValues w1 s \<noteq> None"
    by (simp add: cv')
  then have "forEachE (addValue (currentValues w1)) syms 0 =
             Inr (0 + sum_list (map (\<lambda>s. the (currentValues w1 s)) syms))"
    by (rule addValue_loop)
  moreover have "map (\<lambda>s. the (currentValues w1 s)) syms = map (\<lambda>s. carried byDate s (ds @ [d])) syms"
    by (rule map_cong) (simp_all add: cv')
  ultimately have total: "forEachE (addValue (currentValues w1)) syms 0 =
             Inr (totalAt byDate syms (ds @ [d]))"
    by (simp add: totalAt_def)
  have ncs': "newChartSeries w1 =
      (\<lambda>n. if n \<in> set syms \<or> n = ''Total''
            then Some \<lparr>series_name = n, series_type = ''area'',
                       series_data = pointsOf byDate syms n ds @
                         (if n \<in> set syms
                          then (case valueOn byDate n d of
                                  Some v \<Rightarrow> [\<lparr>point_x = d, point_y = toFixed2 v\<rparr>]
                                | None \<Rightarrow> [])
                          else [])\<rparr>
            else None)"
    unfolding ncs by (auto simp: fun_eq_iff walked_def push_def split: option.splits)
  then obtain tot where tot: "newChartSeries w1 ''Total'' = Some tot"
    by simp
  let ?pt = "\<lparr>point_x = d, point_y = toFixed2 (totalAt byDate syms (ds @ [d]))\<rparr>"
  have step: "dateStep byDate syms d ?w =
        Inr (w1\<lparr>newChartSeries := (newChartSeries w1)(''Total'' \<mapsto> push ?pt tot),
                portfolioValue := totalAt byDate syms (ds @ [d])\<rparr>)"
    using pushPoint_ok [of "newChartSeries w1" "''Total''" tot ?pt, OF tot]
    by (simp add: dateStep_def loop total)
  have "w1\<lparr>newChartSeries := (newChartSeries w1)(''Total'' \<mapsto> push ?pt tot),
                portfolioValue := totalAt byDate syms (ds @ [d])\<rparr> = walked byDate syms (ds @ [d])"
  proof (rule walkState.equality)
    show "newChartSeries (w1\<lparr>newChartSeries := (newChartSeries w1)(''Total'' \<mapsto> push ?pt tot),
                portfolioValue := totalAt byDate syms (ds @ [d])\<rparr>) =
          newChartSeries (walked byDate syms (ds @ [d]))"
      using tot unfolding ncs'
      by (auto simp: fun_eq_iff walked_def push_def pointsOf_snoc emitted_def split: option.splits)
  qed (simp_all add: cv' walked_def)
  with step show ?thesis by simp
qed

lemma walk_walked:
  assumes "distinct syms" and "\<forall>s \<in> set syms. byDate s \<noteq> None"
  shows "walk byDate syms ds' (walked byDate syms ds) = Inr (walked byDate syms (ds @ ds'))"
  unfolding walk_def
proof (induction ds' arbitrary: ds)
  case Nil
  then show ?case by simp
next
  case (Cons d ds')
  have "forEachE (dateStep byDate syms) (d # ds') (walked byDate syms ds) =
        forEachE (dateStep byDate syms) ds' (walked byDate syms (ds @ [d]))"
    by (simp add: dateStep_walked [OF assms])
  then show ?case using Cons.IH [of "ds @ [d]"] by simp
qed

lemma walk_init:
  assumes "distinct syms" and "\<forall>s \<in> set syms. byDate s \<noteq> None"
  shows "walk byDate syms ds (initWalk syms) = Inr (walked byDate syms ds)"
  using walk_walked [OF assms, of ds "[]"] by (simp add: initWalk_walked [of syms byDate])

subsection \<open>The whole valuation\<close>

lemma retrieved_quotes:
  "retrieved stockData p \<Longrightarrow> s \<in> set (stockSymbols p) \<Longrightarrow> quotes stockData s \<noteq> []"
  by (auto simp: retrieved_def stockSymbols_def)

lemma pipeline:
  assumes "allocate stockData p = Inr sharesBought" and "distinct (stockSymbols p)"
  obtains t where
    "tabulate stockData (stockSymbols p) sharesBought = Inr t"
    "stockValuesByDate t = byDateOf stockData (stockSymbols p) sharesBought"
    "allDates t = fold setAdd (quoteDates stockData (stockSymbols p)) []"
    "timeline stockData p = datesSorted t"
    "\<And>n. valuationUpTo n stockData p =
       Inr (walked (stockValuesByDate t) (stockSymbols p) (take n (datesSorted t)))"
    "valuation stockData p = Inr (walked (stockValuesByDate t) (stockSymbols p) (datesSorted t))"
proof -
  have ret: "retrieved stockData p"
    using assms(1) by (rule allocate_Inr_retrieved)
  have "\<forall>s \<in> set (stockSymbols p). quotes stockData s \<noteq> [] \<and> sharesBought s \<noteq> None"
    using retrieved_quotes [OF ret] allocate_dom [OF assms(1)] by auto
  from tabulate_ok [OF assms(2) this] obtain t where
    t: "tabulate stockData (stockSymbols p) sharesBought = Inr t"
    "stockValuesByDate t = byDateOf stockData (stockSymbols p) sharesBought"
    "allDates t = fold setAdd (quoteDates stockData (stockSymbols p)) []"
    unfolding byDateOf_def by blast
  have present: "\<forall>s \<in> set (stockSymbols p). stockValuesByDate t s \<noteq> None"
    by (simp add: t(2) byDateOf_def)
  have w: "\<And>ds. walk (stockValuesByDate t) (stockSymbols p) ds (initWalk (stockSymbols p)) =
         Inr (walked (stockValuesByDate t) (stockSymbols p) ds)"
    by (rule walk_init [OF assms(2) present])
  show ?thesis
  proof (rule that [OF t])
    show "timeline stockData p = datesSorted t"
      by (simp add: timeline_def assms(1) t(1))
    show "valuationUpTo n stockData p =
       Inr (walked (stockValuesByDate t) (stockSymbols p) (take n (datesSorted t)))" for n
      by (simp add: valuationUpTo_def assms(1) t(1) w)
    show "valuation stockData p = Inr (walked (stockValuesByDate t) (stockSymbols p) (datesSorted t))"
      by (simp add: valuation_def assms(1) t(1) w)
  qed
qed

lemma valuation_total:
  assumes "retrieved stockData p" and "distinct (stockSymbols p)"
  shows "\<exists>w. valuation stockData p = Inr w"
proof -
  from allocate_retrieved [OF assms(1)] obtain sh where "allocate stockData p = Inr sh" by blast
  from pipeline [OF this assms(2)] show ?thesis by metis
qed

lemma valuation_throws:
  assumes "\<not> retrieved stockData p"
  shows "valuation stockData p = Inl TypeError"
proof (cases "allocate stockData p")
  case (Inl e)
  then show ?thesis using allocate_error [OF Inl] by (simp add: valuation_def)
next
  case (Inr m)
  then show ?thesis using assms allocate_Inr_retrieved by blast
qed

text \<open>
  The result \<open>NotANumber\<close> stands for a read of a key that a \<^verbatim>\<open>Map\<close> does not have; every
  key that is read was set before, and the result cannot occur.
\<close>

lemma valuation_not_NaN:
  assumes "distinct (stockSymbols p)"
  shows "valuation stockData p \<noteq> Inl NotANumber"
proof (cases "retrieved stockData p")
  case True
  from valuation_total [OF True assms] show ?thesis by auto
next
  case False
  from valuation_throws [OF False] show ?thesis by simp
qed

text \<open>The dates of the timeline.\<close>

lemma timeline_props:
  assumes "allocate stockData p = Inr sharesBought" and "distinct (stockSymbols p)"
  shows "sorted_wrt (<) (timeline stockData p)"
    and "set (timeline stockData p) = (\<Union>s \<in> set (stockSymbols p). datetime ` set (quotes stockData s))"
proof -
  from pipeline [OF assms] obtain t where
    t: "allDates t = fold setAdd (quoteDates stockData (stockSymbols p)) []"
    "timeline stockData p = datesSorted t"
    by metis
  have "distinct (allDates t)"
    unfolding t(1) by (rule distinct_fold_setAdd) simp
  then show "sorted_wrt (<) (timeline stockData p)"
    by (simp add: t(2) datesSorted_def strict_sorted_iff)
  show "set (timeline stockData p) = (\<Union>s \<in> set (stockSymbols p). datetime ` set (quotes stockData s))"
    by (simp add: t datesSorted_def set_fold_setAdd set_quoteDates)
qed

text \<open>The value of a symbol on a date.\<close>

lemma valueOn_byDateOf:
  "s \<in> set syms \<Longrightarrow>
   valueOn (byDateOf stockData syms sharesBought) s d =
     valuesByDate (the (sharesBought s)) (quotes stockData s) Map.empty d"
  by (simp add: valueOn_def byDateOf_def)

lemma valueOn_None_iff:
  "s \<in> set syms \<Longrightarrow>
   valueOn (byDateOf stockData syms sharesBought) s d = None \<longleftrightarrow>
     d \<notin> datetime ` set (quotes stockData s)"
proof -
  assume "s \<in> set syms"
  then have "valueOn (byDateOf stockData syms sharesBought) s d = None \<longleftrightarrow>
     d \<notin> dom (valuesByDate (the (sharesBought s)) (quotes stockData s) Map.empty)"
    by (simp add: valueOn_byDateOf domIff)
  then show ?thesis by (simp only: valuesByDate_dom) simp
qed

lemma valueOn_Some:
  assumes "s \<in> set syms" and "valueOn (byDateOf stockData syms sharesBought) s d = Some v"
  shows "\<exists>t \<in> set (quotes stockData s). datetime t = d \<and> v = the (sharesBought s) * close t"
  using assms valuesByDate_Some [of "the (sharesBought s)" "quotes stockData s" Map.empty d v]
  by (simp add: valueOn_byDateOf)

subsection \<open>C1: the shares bought\<close>

lemma sharesFor_last:
  assumes "retrieved stockData p" and "distinct (stockSymbols p)" and "a \<in> set (assets p)"
  shows "sharesFor stockData p (symbol a) =
         Some (portion a * initial p / close (last (quotes stockData (symbol a))))"
proof -
  from allocate_retrieved [OF assms(1)] obtain m where m: "allocate stockData p = Inr m"
    by blast
  from allocate_shares [OF m assms(2,3)] show ?thesis
    by (simp add: sharesFor_def m sharesOf_def)
qed

lemma descending_last_least:
  fixes days :: "('d::linorder) tradingDay list"
  assumes "sorted_wrt (>) (map datetime days)" and "t \<in> set days"
    and "\<forall>u \<in> set days. datetime t \<le> datetime u"
  shows "t = last days"
  using assms
proof (induction days)
  case Nil
  then show ?case by simp
next
  case (Cons u days)
  show ?case
  proof (cases "days = []")
    case True
    with Cons.prems show ?thesis by simp
  next
    case False
    have "t \<noteq> u"
    proof
      assume "t = u"
      moreover from False have "last days \<in> set days" by simp
      ultimately show False using Cons.prems by force
    qed
    with Cons show ?thesis using False by auto
  qed
qed

text \<open>
  C1, as the code has it. The price of the purchase is the close of the last record of the
  symbol's payload (line 179, ``assume descending order''). When the records are in
  descending order of their dates, that record is the one of the earliest date, and the
  shares of every asset are \<open>initial * portion\<close> divided by the close on the earliest date.
\<close>

theorem shares_at_earliest_close:
  fixes stockData :: "('d::linorder) stockData"
  assumes "retrieved stockData p" and "distinct (stockSymbols p)" and "a \<in> set (assets p)"
    and "sorted_wrt (>) (map datetime (quotes stockData (symbol a)))"
    and "t \<in> set (quotes stockData (symbol a))"
    and "\<forall>u \<in> set (quotes stockData (symbol a)). datetime t \<le> datetime u"
    and "close t \<noteq> 0"
  shows "sharesFor stockData p (symbol a) = Some (initial p * portion a / close t)"
proof -
  have "t = last (quotes stockData (symbol a))"
    using assms(4,5,6) by (rule descending_last_least)
  with sharesFor_last [OF assms(1,2,3)] show ?thesis
    by (simp add: mult.commute)
qed

theorem shares_at_earliest_close_witness:
  "sharesFor dataX planX ''X'' = Some 10"
proof -
  let ?a = "\<lparr>symbol = ''X'', portion = 1\<rparr>"
  let ?t = "\<lparr>datetime = 1 :: nat, close = 100\<rparr>"
  have q: "quotes dataX ''X'' = [\<lparr>datetime = 2, close = 150\<rparr>, ?t]"
    by (simp add: quotes_def dataX_def)
  have "sharesFor dataX planX (symbol ?a) = Some (initial planX * portion ?a / close ?t)"
  proof (rule shares_at_earliest_close)
    show "retrieved dataX planX"
      by (simp add: retrieved_def planX_def q)
    show "distinct (stockSymbols planX)"
      by (simp add: stockSymbols_def planX_def)
    show "?a \<in> set (assets planX)"
      by (simp add: planX_def)
    show "sorted_wrt (>) (map datetime (quotes dataX (symbol ?a)))"
      by (simp add: q)
    show "?t \<in> set (quotes dataX (symbol ?a))"
      by (simp add: q)
    show "\<forall>u \<in> set (quotes dataX (symbol ?a)). datetime ?t \<le> datetime u"
      by (simp add: q)
    show "close ?t \<noteq> 0"
      by simp
  qed
  then show ?thesis by (simp add: planX_def)
qed

text \<open>
  With the quotes of the claim's example listed as the claim writes them, \<open>(d1, 100)\<close>
  before \<open>(d2, 150)\<close>, the shares are \<open>1000 / 150\<close>, not the \<open>10\<close> that the close
  of the earliest date gives.
\<close>

theorem shares_at_earliest_close_counterexample:
  "sharesFor dataXAscending planX ''X'' = Some (20 / 3) \<and> (20 / 3 :: rat) \<noteq> 1000 * 1 / 100"
  by (simp add: sharesFor_def allocate_def buyShares_def dataXAscending_def planX_def)

subsection \<open>The result of the valuation\<close>

lemma valuation_walked:
  assumes "retrieved stockData p" and "distinct (stockSymbols p)"
  obtains sharesBought w where
    "allocate stockData p = Inr sharesBought"
    "valuation stockData p = Inr w"
    "w = walked (byDateOf stockData (stockSymbols p) sharesBought) (stockSymbols p)
           (timeline stockData p)"
    "\<And>n. valuationUpTo n stockData p =
       Inr (walked (byDateOf stockData (stockSymbols p) sharesBought) (stockSymbols p)
              (take n (timeline stockData p)))"
proof -
  from allocate_retrieved [OF assms(1)] obtain sh where sh: "allocate stockData p = Inr sh"
    by blast
  from pipeline [OF sh assms(2)] obtain t where
    t: "stockValuesByDate t = byDateOf stockData (stockSymbols p) sh"
    "timeline stockData p = datesSorted t"
    "\<And>n. valuationUpTo n stockData p =
       Inr (walked (stockValuesByDate t) (stockSymbols p) (take n (datesSorted t)))"
    "valuation stockData p = Inr (walked (stockValuesByDate t) (stockSymbols p) (datesSorted t))"
    by metis
  show ?thesis
  proof (rule that [OF sh])
    show "valuation stockData p =
       Inr (walked (byDateOf stockData (stockSymbols p) sh) (stockSymbols p) (timeline stockData p))"
      using t(4) by (simp add: t(1,2))
    show "walked (byDateOf stockData (stockSymbols p) sh) (stockSymbols p) (timeline stockData p) =
       walked (byDateOf stockData (stockSymbols p) sh) (stockSymbols p) (timeline stockData p)"
      by (rule refl)
    show "valuationUpTo n stockData p =
       Inr (walked (byDateOf stockData (stockSymbols p) sh) (stockSymbols p)
              (take n (timeline stockData p)))" for n
      using t(3) [of n] by (simp add: t(1,2))
  qed
qed

lemma concat_singletons: "concat (map (\<lambda>k. [f k]) xs) = map f xs"
  by (induction xs) auto

lemma pointsOf_Total:
  assumes "''Total'' \<notin> set syms"
  shows "pointsOf byDate syms ''Total'' ds =
         map (\<lambda>k. \<lparr>point_x = ds ! k, point_y = toFixed2 (totalAt byDate syms (take (Suc k) ds))\<rparr>)
           [0..<length ds]"
proof -
  have "map (\<lambda>k. emitted byDate syms ''Total'' (take (Suc k) ds)) [0..<length ds] =
        map (\<lambda>k. [\<lparr>point_x = ds ! k, point_y = toFixed2 (totalAt byDate syms (take (Suc k) ds))\<rparr>])
          [0..<length ds]"
    by (rule map_cong) (use assms in \<open>auto simp: emitted_def take_Suc_conv_app_nth\<close>)
  then show ?thesis
    unfolding pointsOf_def by (simp only: concat_singletons)
qed

lemma pointsOf_symbol:
  assumes "s \<in> set syms" and "s \<noteq> ''Total''"
  shows "pointsOf byDate syms s ds =
         concat (map (\<lambda>d. case valueOn byDate s d of
                            Some v \<Rightarrow> [\<lparr>point_x = d, point_y = toFixed2 v\<rparr>]
                          | None \<Rightarrow> []) ds)"
proof (induction ds rule: rev_induct)
  case Nil
  then show ?case by simp
next
  case (snoc d ds)
  then show ?case
    using assms by (auto simp: pointsOf_snoc emitted_def split: option.splits)
qed

lemma dates_pointsOf_symbol:
  assumes "s \<in> set syms" and "s \<noteq> ''Total''"
  shows "map point_x (pointsOf byDate syms s ds) = filter (\<lambda>d. valueOn byDate s d \<noteq> None) ds"
  unfolding pointsOf_symbol [OF assms]
  by (induction ds) (auto split: option.splits)

lemma dates_pointsOf_Total:
  assumes "''Total'' \<notin> set syms"
  shows "map point_x (pointsOf byDate syms ''Total'' ds) = ds"
  unfolding pointsOf_Total [OF assms]
  by (simp add: comp_def map_nth)

lemma walked_series:
  "sName \<in> set syms \<or> sName = ''Total'' \<Longrightarrow>
   newChartSeries (walked byDate syms ds) sName =
     Some \<lparr>series_name = sName, series_type = ''area'', series_data = pointsOf byDate syms sName ds\<rparr>"
  by (simp add: walked_def)

text \<open>
  C2, as the code has it. When no symbol of the plan is named \<open>Total\<close>, the series of the
  total has one point for each date of the union of the symbols' dates, in strictly
  ascending order of the dates, and no other point. (The series of the total is the entry
  \<open>Total\<close> of the object that also holds the series of the symbols under their names.)
\<close>

theorem total_points_are_date_union:
  fixes stockData :: "('d::linorder) stockData"
  assumes "retrieved stockData p"
    and "distinct (stockSymbols p)" and "''Total'' \<notin> set (stockSymbols p)"
  shows "\<exists>w tot. valuation stockData p = Inr w \<and> newChartSeries w ''Total'' = Some tot \<and>
           sorted_wrt (<) (map point_x (series_data tot)) \<and>
           set (map point_x (series_data tot)) =
             (\<Union>s \<in> set (stockSymbols p). datetime ` set (quotes stockData s)) \<and>
           length (series_data tot) =
             card (\<Union>s \<in> set (stockSymbols p). datetime ` set (quotes stockData s))"
proof -
  from valuation_walked [OF assms(1,2)] obtain sh w where
    sh: "allocate stockData p = Inr sh"
    and v: "valuation stockData p = Inr w"
    and w: "w = walked (byDateOf stockData (stockSymbols p) sh) (stockSymbols p) (timeline stockData p)"
    by metis
  let ?tot = "\<lparr>series_name = ''Total'', series_type = ''area'',
               series_data = pointsOf (byDateOf stockData (stockSymbols p) sh) (stockSymbols p)
                 ''Total'' (timeline stockData p)\<rparr>"
  have dates: "map point_x (series_data ?tot) = timeline stockData p"
    by (simp add: dates_pointsOf_Total [OF assms(3)])
  have sorted: "sorted_wrt (<) (timeline stockData p)"
    and union: "set (timeline stockData p) =
      (\<Union>s \<in> set (stockSymbols p). datetime ` set (quotes stockData s))"
    using timeline_props [OF sh assms(2)] by blast+
  have "distinct (timeline stockData p)"
    using sorted by (simp add: strict_sorted_iff)
  then have "length (timeline stockData p) = card (set (timeline stockData p))"
    by (simp add: distinct_card)
  moreover have "length (series_data ?tot) = length (timeline stockData p)"
    using dates by (metis length_map)
  ultimately have "length (series_data ?tot) =
      card (\<Union>s \<in> set (stockSymbols p). datetime ` set (quotes stockData s))"
    using union by simp
  moreover have "newChartSeries w ''Total'' = Some ?tot"
    unfolding w by (rule walked_series) simp
  ultimately show ?thesis
    using v sorted union dates by (metis (no_types, lifting))
qed

theorem total_points_are_date_union_witness:
  "\<exists>w tot. valuation dataAB planAB = Inr w \<and> newChartSeries w ''Total'' = Some tot \<and>
      sorted_wrt (<) (map point_x (series_data tot)) \<and>
      set (map point_x (series_data tot)) = {1, 2, 3} \<and>
      length (series_data tot) = 3"
proof -
  have r: "retrieved dataAB planAB"
    by (simp add: retrieved_def planAB_def quotes_def dataAB_def)
  have d: "distinct (stockSymbols planAB)"
    by (simp add: stockSymbols_def planAB_def)
  have t: "''Total'' \<notin> set (stockSymbols planAB)"
    by (simp add: stockSymbols_def planAB_def)
  have "quotes dataAB ''A'' = [\<lparr>datetime = 3, close = 20\<rparr>, \<lparr>datetime = 1, close = 10\<rparr>]"
    and "quotes dataAB ''B'' = [\<lparr>datetime = 3, close = 7\<rparr>, \<lparr>datetime = 2, close = 6\<rparr>,
                         \<lparr>datetime = 1, close = 5\<rparr>]"
    by (simp_all add: quotes_def dataAB_def)
  then have u: "(\<Union>s \<in> set (stockSymbols planAB). datetime ` set (quotes dataAB s)) = {1, 2, 3}"
    by (simp add: stockSymbols_def planAB_def) blast
  have c: "card {1, 2, 3 :: nat} = 3"
    by simp
  from total_points_are_date_union [OF r d t] show ?thesis
    unfolding u c .
qed

text \<open>
  C10, as the code has it. The series of a symbol not named \<open>Total\<close> has one point for each
  date on which the symbol itself has a quote, in ascending order of the dates, and no point
  on another date.
\<close>

theorem symbol_points_are_own_dates:
  fixes stockData :: "('d::linorder) stockData"
  assumes "retrieved stockData p"
    and "distinct (stockSymbols p)"
    and "s \<in> set (stockSymbols p)" and "s \<noteq> ''Total''"
  shows "\<exists>w ser. valuation stockData p = Inr w \<and> newChartSeries w s = Some ser \<and>
           sorted_wrt (<) (map point_x (series_data ser)) \<and>
           set (map point_x (series_data ser)) = datetime ` set (quotes stockData s)"
proof -
  from valuation_walked [OF assms(1,2)] obtain sh w where
    sh: "allocate stockData p = Inr sh"
    and v: "valuation stockData p = Inr w"
    and w: "w = walked (byDateOf stockData (stockSymbols p) sh) (stockSymbols p) (timeline stockData p)"
    by metis
  let ?M = "byDateOf stockData (stockSymbols p) sh"
  let ?ser = "\<lparr>series_name = s, series_type = ''area'',
               series_data = pointsOf ?M (stockSymbols p) s (timeline stockData p)\<rparr>"
  have dates: "map point_x (series_data ?ser) =
      filter (\<lambda>d. d \<in> datetime ` set (quotes stockData s)) (timeline stockData p)"
    using dates_pointsOf_symbol [OF assms(3,4), of ?M "timeline stockData p"]
    by (simp add: valueOn_None_iff [OF assms(3)])
  have sorted: "sorted_wrt (<) (timeline stockData p)"
    and union: "set (timeline stockData p) =
      (\<Union>s \<in> set (stockSymbols p). datetime ` set (quotes stockData s))"
    using timeline_props [OF sh assms(2)] by blast+
  have "sorted_wrt (<) (map point_x (series_data ?ser))"
    unfolding dates using sorted by (rule sorted_wrt_filter)
  moreover have "set (map point_x (series_data ?ser)) = datetime ` set (quotes stockData s)"
    unfolding dates using union assms(3) by auto
  moreover have "newChartSeries w s = Some ?ser"
    unfolding w by (rule walked_series) (simp add: assms(3))
  ultimately show ?thesis using v by blast
qed

theorem symbol_points_are_own_dates_witness:
  "\<exists>w ser. valuation dataAB planAB = Inr w \<and> newChartSeries w ''A'' = Some ser \<and>
      sorted_wrt (<) (map point_x (series_data ser)) \<and>
      set (map point_x (series_data ser)) = {1, 3}"
proof -
  have r: "retrieved dataAB planAB"
    by (simp add: retrieved_def planAB_def quotes_def dataAB_def)
  have d: "distinct (stockSymbols planAB)"
    by (simp add: stockSymbols_def planAB_def)
  have a: "''A'' \<in> set (stockSymbols planAB)"
    by (simp add: stockSymbols_def planAB_def)
  have t: "''A'' \<noteq> ''Total''"
    by simp
  have "quotes dataAB ''A'' = [\<lparr>datetime = 3, close = 20\<rparr>, \<lparr>datetime = 1, close = 10\<rparr>]"
    by (simp add: quotes_def dataAB_def)
  then have u: "datetime ` set (quotes dataAB ''A'') = {1, 3}"
    by simp blast
  from symbol_points_are_own_dates [OF r d a t] show ?thesis
    unfolding u by simp
qed

subsection \<open>Carrying a value forward\<close>

lemma carried_append_none:
  assumes "\<forall>d \<in> set ds'. valueOn byDate smb d = None"
  shows "carried byDate smb (ds @ ds') = carried byDate smb ds"
  using assms
proof (induction ds' rule: rev_induct)
  case Nil
  then show ?case by simp
next
  case (snoc d ds')
  then have "carried byDate smb ((ds @ ds') @ [d]) = carried byDate smb (ds @ ds')"
    by (simp only: carried_snoc) simp
  with snoc show ?case by simp
qed

lemma carried_none:
  assumes "\<forall>d \<in> set ds. valueOn byDate smb d = None"
  shows "carried byDate smb ds = 0"
  using carried_append_none [OF assms, of "[]"] by simp

lemma carried_only:
  assumes "\<forall>d. valueOn byDate smb d = (if d = d0 then Some v else None)" and "d0 \<in> set ds"
  shows "carried byDate smb ds = v"
  using assms(2)
proof (induction ds rule: rev_induct)
  case Nil
  then show ?case by simp
next
  case (snoc d ds)
  then show ?case
    using assms(1) by (cases "d = d0") (simp_all add: carried_snoc)
qed

lemma walked_current:
  "s \<in> set syms \<Longrightarrow> currentValues (walked byDate syms ds) s = Some (carried byDate s ds)"
  by (simp add: walked_def)


lemma sharesFor_allocate: "allocate stockData p = Inr sh \<Longrightarrow> sharesFor stockData p = sh"
  by (simp add: sharesFor_def fun_eq_iff)

lemma currentValueUpTo_carried:
  assumes "retrieved stockData p" and "distinct (stockSymbols p)" and "s \<in> set (stockSymbols p)"
  shows "currentValueUpTo n stockData p s =
         Some (carried (byDateOf stockData (stockSymbols p) (sharesFor stockData p)) s
                 (take n (timeline stockData p)))"
proof -
  from valuation_walked [OF assms(1,2)] obtain sh where
    sh: "allocate stockData p = Inr sh"
    and upto: "\<And>n. valuationUpTo n stockData p =
       Inr (walked (byDateOf stockData (stockSymbols p) sh) (stockSymbols p)
              (take n (timeline stockData p)))"
    by metis
  show ?thesis
    by (simp add: currentValueUpTo_def upto walked_def assms(3) sharesFor_allocate [OF sh])
qed

subsection \<open>The examples, evaluated\<close>

lemma planAB_symbols: "stockSymbols planAB = [''A'', ''B'']"
  by (simp add: stockSymbols_def planAB_def)

lemma dataAB_quotes:
  "quotes dataAB ''A'' = [\<lparr>datetime = 3, close = 20\<rparr>, \<lparr>datetime = 1, close = 10\<rparr>]"
  "quotes dataAB ''B'' = [\<lparr>datetime = 3, close = 7\<rparr>, \<lparr>datetime = 2, close = 6\<rparr>, \<lparr>datetime = 1, close = 5\<rparr>]"
  by (simp_all add: quotes_def dataAB_def)

lemma dataAB_retrieved: "retrieved dataAB planAB"
  by (simp add: retrieved_def planAB_def dataAB_quotes)

lemma dataAB_shares:
  "sharesFor dataAB planAB ''A'' = Some 10"
  "sharesFor dataAB planAB ''B'' = Some 20"
  by (simp_all add: sharesFor_def allocate_def buyShares_def dataAB_def planAB_def)

lemma dataAB_timeline: "timeline dataAB planAB = [1, 2, 3]"
  by code_simp

lemma dataAB_valueOn:
  "valueOn (byDateOf dataAB [''A'', ''B''] (sharesFor dataAB planAB)) ''A'' = [3 \<mapsto> 200, 1 \<mapsto> 100]"
  "valueOn (byDateOf dataAB [''A'', ''B''] (sharesFor dataAB planAB)) ''B'' = [3 \<mapsto> 140, 2 \<mapsto> 120, 1 \<mapsto> 100]"
  by (simp_all add: valueOn_def byDateOf_def dataAB_quotes dataAB_shares fun_eq_iff)

lemma dataSingle_quotes:
  "quotes dataSingle ''A'' = [\<lparr>datetime = 2, close = 10\<rparr>]"
  "quotes dataSingle ''B'' = [\<lparr>datetime = 2, close = 6\<rparr>, \<lparr>datetime = 1, close = 5\<rparr>]"
  by (simp_all add: quotes_def dataSingle_def)

lemma dataSingle_retrieved: "retrieved dataSingle planAB"
  by (simp add: retrieved_def planAB_def dataSingle_quotes)

lemma dataSingle_shares:
  "sharesFor dataSingle planAB ''A'' = Some 10"
  "sharesFor dataSingle planAB ''B'' = Some 20"
  by (simp_all add: sharesFor_def allocate_def buyShares_def dataSingle_def planAB_def)

lemma dataSingle_timeline: "timeline dataSingle planAB = [1, 2]"
  by code_simp

lemma dataSingle_valueOn:
  "valueOn (byDateOf dataSingle [''A'', ''B''] (sharesFor dataSingle planAB)) ''A'' = [2 \<mapsto> 100]"
  "valueOn (byDateOf dataSingle [''A'', ''B''] (sharesFor dataSingle planAB)) ''B'' = [2 \<mapsto> 120, 1 \<mapsto> 100]"
  by (simp_all add: valueOn_def byDateOf_def dataSingle_quotes dataSingle_shares fun_eq_iff)


lemma dataSingle_current:
  "currentValueUpTo 1 dataSingle planAB ''A'' = Some 0"
  "currentValueUpTo 2 dataSingle planAB ''A'' = Some 100"
  by (simp_all add: currentValueUpTo_carried [OF dataSingle_retrieved] planAB_symbols
      dataSingle_timeline carried_def dataSingle_valueOn)

subsection \<open>C3: the carried value\<close>



subsection \<open>C8: a symbol with a single quote\<close>

lemma sorted_nth_le:
  fixes ds :: "('d::linorder) list"
  assumes "sorted_wrt (<) ds" and "k \<le> i" and "i < length ds"
  shows "ds ! k \<le> ds ! i"
proof (cases "k = i")
  case True
  then show ?thesis by simp
next
  case False
  with assms(2) have "k < i" by simp
  with assms(1,3) have "ds ! k < ds ! i"
    by (simp add: sorted_wrt_iff_nth_less)
  then show ?thesis by simp
qed

text \<open>
  C8, as the code has it. A symbol with a single quote is worth nothing on the dates
  before its quote (its current value starts at \<open>0\<close>) and \<open>shares * price\<close> on the date of
  the quote and on every later date.
\<close>

theorem single_quote_value:
  fixes stockData :: "('d::linorder) stockData"
  assumes "retrieved stockData p" and "distinct (stockSymbols p)"
    and "s \<in> set (stockSymbols p)"
    and "quotes stockData s = [t]"
    and "i < length (timeline stockData p)"
  shows "\<exists>sh. sharesFor stockData p s = Some sh \<and>
           currentValueUpTo (Suc i) stockData p s =
             Some (if timeline stockData p ! i < datetime t then 0 else sh * close t)"
proof -
  from valuation_walked [OF assms(1,2)] obtain sh where
    sh: "allocate stockData p = Inr sh"
    and upto: "\<And>n. valuationUpTo n stockData p =
       Inr (walked (byDateOf stockData (stockSymbols p) sh) (stockSymbols p)
              (take n (timeline stockData p)))"
    by metis
  let ?M = "byDateOf stockData (stockSymbols p) sh"
  let ?ds = "timeline stockData p"
  have "s \<in> dom sh"
    using allocate_dom [OF sh] assms(3) by simp
  then obtain x where x: "sh s = Some x" by blast
  have shares: "sharesFor stockData p s = Some x"
    by (simp add: sharesFor_def sh x)
  have cur: "currentValueUpTo (Suc i) stockData p s = Some (carried ?M s (take (Suc i) ?ds))"
    by (simp add: currentValueUpTo_def upto walked_current [OF assms(3)])
  have val: "\<forall>d. valueOn ?M s d = (if d = datetime t then Some (x * close t) else None)"
    by (simp add: valueOn_byDateOf [OF assms(3)] assms(4) x)
  have sorted: "sorted_wrt (<) ?ds"
    using timeline_props(1) [OF sh assms(2)] .
  have "datetime t \<in> set ?ds"
    using timeline_props(2) [OF sh assms(2)] assms(3,4) by force
  then obtain j where j: "j < length ?ds" "?ds ! j = datetime t"
    by (auto simp: in_set_conv_nth)
  have "carried ?M s (take (Suc i) ?ds) = (if ?ds ! i < datetime t then 0 else x * close t)"
  proof (cases "?ds ! i < datetime t")
    case True
    have "\<forall>d \<in> set (take (Suc i) ?ds). valueOn ?M s d = None"
    proof
      fix d assume "d \<in> set (take (Suc i) ?ds)"
      then obtain k where k: "k < Suc i" "d = ?ds ! k"
        using assms(5) by (auto simp: in_set_conv_nth)
      then have "d \<le> ?ds ! i"
        using sorted_nth_le [OF sorted _ assms(5), of k] by simp
      with True have "d \<noteq> datetime t" by auto
      then show "valueOn ?M s d = None" using val by simp
    qed
    then show ?thesis using True by (simp add: carried_none)
  next
    case False
    have "j \<le> i"
    proof (rule ccontr)
      assume "\<not> j \<le> i"
      then have "i < j" by simp
      with sorted j(1) have "?ds ! i < ?ds ! j"
        by (simp add: sorted_wrt_iff_nth_less)
      with False j(2) show False by simp
    qed
    then have "datetime t \<in> set (take (Suc i) ?ds)"
      using j assms(5) by (auto simp: in_set_conv_nth intro!: exI [of _ j])
    from carried_only [OF val this] show ?thesis using False by simp
  qed
  with shares cur show ?thesis by simp
qed

theorem single_quote_value_witness:
  "timeline dataSingle planAB = [1, 2] \<and>
   sharesFor dataSingle planAB ''A'' = Some 10 \<and>
   currentValueUpTo 1 dataSingle planAB ''A'' = Some 0 \<and>
   currentValueUpTo 2 dataSingle planAB ''A'' = Some 100"
proof -
  have d: "distinct (stockSymbols planAB)" and a: "''A'' \<in> set (stockSymbols planAB)"
    by (simp_all add: planAB_symbols)
  have "0 < length (timeline dataSingle planAB)" and "1 < length (timeline dataSingle planAB)"
    by (simp_all add: dataSingle_timeline)
  from single_quote_value [OF dataSingle_retrieved d a dataSingle_quotes(1) this(1)]
    single_quote_value [OF dataSingle_retrieved d a dataSingle_quotes(1) this(2)]
  show ?thesis
    using dataSingle_timeline dataSingle_shares(1) by (simp add: numeral_2_eq_2)
qed

text \<open>
  On \<open>d1\<close>, before its single quote of \<open>d2\<close>, the value of \<open>A\<close> is \<open>0\<close> and not the
  \<open>10 * 10\<close> of its shares at its one price.
\<close>

theorem single_quote_value_counterexample:
  "quotes dataSingle ''A'' = [\<lparr>datetime = 2, close = 10\<rparr>] \<and>
   timeline dataSingle planAB = [1, 2] \<and>
   sharesFor dataSingle planAB ''A'' = Some 10 \<and>
   currentValueUpTo 1 dataSingle planAB ''A'' = Some 0 \<and>
   (0 :: rat) \<noteq> 10 * 10"
  using dataSingle_quotes(1) dataSingle_timeline dataSingle_shares(1) dataSingle_current(1)
  by simp

subsection \<open>The strings of toFixed(2)\<close>

lemma digits_upt: "[0..<10] = [0, 1, 2, 3, 4, 5, 6, 7, 8, 9 :: nat]"
  by code_simp

lemma all_digits:
  assumes "n < 10" and "list_all P [0, 1, 2, 3, 4, 5, 6, 7, 8, 9 :: nat]"
  shows "P n"
proof -
  from assms(1) have "n \<in> set [0..<10]" by simp
  with assms(2) show ?thesis
    unfolding digits_upt list_all_iff by blast
qed

lemma isDigit_digitChar: "n < 10 \<Longrightarrow> isDigit (digitChar n)"
  by (erule all_digits) (simp add: isDigit_def digitChar_def)

lemma digitValue_digitChar: "n < 10 \<Longrightarrow> digitValue (digitChar n) = n"
  by (erule all_digits) (simp add: digitValue_def digitChar_def)

lemma decimal_digits: "list_all isDigit (decimal n)"
proof (induction n rule: decimal.induct)
  case (1 n)
  show ?case
  proof (cases "n < 10")
    case True
    then show ?thesis by (simp add: decimal.simps [of n] isDigit_digitChar)
  next
    case False
    with 1 show ?thesis by (simp add: decimal.simps [of n] isDigit_digitChar)
  qed
qed

lemma decimal_not_Nil: "decimal n \<noteq> []"
  by (simp add: decimal.simps [of n])

lemma hd_decimal: "hd (decimal n) \<noteq> CHR ''-''"
  using decimal_digits [of n] decimal_not_Nil [of n]
  by (cases "decimal n") (auto simp: isDigit_def)

lemma toFixed2_body:
  "\<bar>v\<bar> < 10 ^ 21 \<Longrightarrow> toFixed2 v = (if v < 0 then ''-'' else '''') @ fixedBody (cents v)"
  by (simp add: toFixed2_def fixedBody_def Let_def)

lemma unsigned_body: "unsigned (fixedBody n) = fixedBody n"
  using hd_decimal [of "n div 100"] decimal_not_Nil [of "n div 100"]
  by (cases "decimal (n div 100)") (auto simp: unsigned_def fixedBody_def)

lemma unsigned_toFixed2: "\<bar>v\<bar> < 10 ^ 21 \<Longrightarrow> unsigned (toFixed2 v) = fixedBody (cents v)"
  by (simp add: toFixed2_body unsigned_body) (simp add: unsigned_def)

lemma length_body: "length (fixedBody n) = length (decimal (n div 100)) + 3"
  by (simp add: fixedBody_def)

lemma take_body: "take (length (fixedBody n) - 3) (fixedBody n) = decimal (n div 100)"
  by (simp add: fixedBody_def)

lemma drop_body:
  "drop (length (fixedBody n) - 2) (fixedBody n) = [digitChar (n div 10 mod 10), digitChar (n mod 10)]"
  by (simp add: fixedBody_def)

lemma nth_body: "fixedBody n ! (length (fixedBody n) - 3) = CHR ''.''"
  by (simp add: fixedBody_def nth_append)

lemma twoDecimals_toFixed2:
  assumes "\<bar>v\<bar> < 10 ^ 21"
  shows "twoDecimals (toFixed2 v)"
proof -
  have "4 \<le> length (fixedBody (cents v))"
    using decimal_not_Nil [of "cents v div 100"]
    by (cases "decimal (cents v div 100)") (simp_all add: length_body)
  then show ?thesis
    unfolding twoDecimals_def Let_def unsigned_toFixed2 [OF assms] take_body drop_body nth_body
    by (simp add: decimal_digits isDigit_digitChar)
qed

text \<open>Rules to evaluate \<open>toFixed2\<close> on a numeral.\<close>

lemma decimal_small: "n < 10 \<Longrightarrow> decimal n = [digitChar n]"
  by (simp add: decimal.simps [of n])

lemma decimal_large: "10 \<le> n \<Longrightarrow> decimal n = decimal (n div 10) @ [digitChar (n mod 10)]"
  by (simp add: decimal.simps [of n])

lemma floor_rat_numeral: "\<lfloor>numeral a / numeral b :: rat\<rfloor> = numeral a div numeral b"
  by (metis floor_divide_of_int_eq of_int_numeral)

subsection \<open>The series and the total\<close>

lemma seriesData_pointsOf:
  assumes "retrieved stockData p" and "distinct (stockSymbols p)"
    and "sName \<in> set (stockSymbols p) \<or> sName = ''Total''"
  shows "seriesData stockData p sName =
         Some (pointsOf (byDateOf stockData (stockSymbols p) (sharesFor stockData p))
                 (stockSymbols p) sName (timeline stockData p))"
proof -
  from valuation_walked [OF assms(1,2)] obtain sh w where
    sh: "allocate stockData p = Inr sh"
    and v: "valuation stockData p = Inr w"
    and w: "w = walked (byDateOf stockData (stockSymbols p) sh) (stockSymbols p) (timeline stockData p)"
    by metis
  show ?thesis
    using assms(3) by (auto simp: seriesData_def v w walked_def sharesFor_allocate [OF sh])
qed

lemma walked_total:
  "ds \<noteq> [] \<Longrightarrow> portfolioValue (walked byDate syms ds) = totalAt byDate syms ds"
  by (simp add: walked_def)

lemma walked_currents:
  "map (currentValues (walked byDate syms ds)) syms = map Some (map (\<lambda>s. carried byDate s ds) syms)"
  by (simp add: walked_def)

lemma nth_pointsOf_Total:
  assumes "''Total'' \<notin> set syms" and "i < length ds"
  shows "pointsOf byDate syms ''Total'' ds ! i =
         \<lparr>point_x = ds ! i, point_y = toFixed2 (totalAt byDate syms (take (Suc i) ds))\<rparr>"
  using assms(2) by (simp add: pointsOf_Total [OF assms(1)])

lemma mem_pointsOf_Total:
  assumes "i < length ds"
  shows "\<lparr>point_x = ds ! i, point_y = toFixed2 (totalAt byDate syms (take (Suc i) ds))\<rparr>
         \<in> set (pointsOf byDate syms ''Total'' ds)"
proof -
  let ?pre = "take (Suc i) ds"
  have l: "last ?pre = ds ! i"
    using assms by (simp add: take_Suc_conv_app_nth)
  obtain front where
    "emitted byDate syms ''Total'' ?pre =
       front @ [\<lparr>point_x = ds ! i, point_y = toFixed2 (totalAt byDate syms ?pre)\<rparr>]"
    unfolding emitted_def l by simp
  then have e: "\<lparr>point_x = ds ! i, point_y = toFixed2 (totalAt byDate syms ?pre)\<rparr>
      \<in> set (emitted byDate syms ''Total'' ?pre)"
    by simp
  have "i \<in> set [0..<length ds]"
    using assms by simp
  then have "emitted byDate syms ''Total'' ?pre
      \<in> set (map (\<lambda>k. emitted byDate syms ''Total'' (take (Suc k) ds)) [0..<length ds])"
    unfolding set_map by (rule imageI)
  with e show ?thesis
    unfolding pointsOf_def set_concat by (rule UN_I [rotated])
qed

lemma foldl_plus: "foldl (+) a vs = a + sum_list vs" for a :: rat
  by (induction vs arbitrary: a) (simp_all add: add.assoc)

text \<open>
  C4, as the code has it. When every symbol was bought at a price other than zero, then on
  every date of the timeline the total is the sum of the current values of the plan's
  symbols, added up from \<open>0\<close> in the order of the plan, and the series of the total has the
  point of that date with this sum, formatted: the only point of that date when no symbol
  is named \<open>Total\<close>. The total is formatted on its own, from the sum that is not rounded;
  the statement bounds no distance between it and the sum of the formatted values of the
  symbols (two cents in the example below).
\<close>

theorem total_is_sum_of_current_values:
  fixes stockData :: "('d::linorder) stockData"
  assumes "retrieved stockData p" and "distinct (stockSymbols p)"
    and "priced stockData p"
    and "i < length (timeline stockData p)"
  shows "\<exists>wi vs pts. valuationUpTo (Suc i) stockData p = Inr wi \<and>
           map (currentValues wi) (stockSymbols p) = map Some vs \<and>
           portfolioValue wi = foldl (+) 0 vs \<and>
           seriesData stockData p ''Total'' = Some pts \<and>
           \<lparr>point_x = timeline stockData p ! i, point_y = toFixed2 (portfolioValue wi)\<rparr> \<in> set pts \<and>
           (''Total'' \<notin> set (stockSymbols p) \<longrightarrow>
              length pts = length (timeline stockData p) \<and>
              pts ! i = \<lparr>point_x = timeline stockData p ! i, point_y = toFixed2 (portfolioValue wi)\<rparr>)"
proof -
  from valuation_walked [OF assms(1,2)] obtain sh where
    sh: "allocate stockData p = Inr sh"
    and upto: "\<And>n. valuationUpTo n stockData p =
       Inr (walked (byDateOf stockData (stockSymbols p) sh) (stockSymbols p)
              (take n (timeline stockData p)))"
    by metis
  let ?M = "byDateOf stockData (stockSymbols p) sh"
  let ?ds = "timeline stockData p"
  let ?wi = "walked ?M (stockSymbols p) (take (Suc i) ?ds)"
  let ?vs = "map (\<lambda>s. carried ?M s (take (Suc i) ?ds)) (stockSymbols p)"
  let ?pts = "pointsOf ?M (stockSymbols p) ''Total'' ?ds"
  let ?pt = "\<lparr>point_x = ?ds ! i, point_y = toFixed2 (portfolioValue ?wi)\<rparr>"
  have ne: "take (Suc i) ?ds \<noteq> []"
    using assms(4) by auto
  have tot: "portfolioValue ?wi = totalAt ?M (stockSymbols p) (take (Suc i) ?ds)"
    by (rule walked_total [OF ne])
  have total: "portfolioValue ?wi = foldl (+) 0 ?vs"
    by (simp add: tot totalAt_def foldl_plus)
  have pts: "seriesData stockData p ''Total'' = Some ?pts"
    using seriesData_pointsOf [OF assms(1,2), of "''Total''"]
    by (simp add: sharesFor_allocate [OF sh])
  have mem: "?pt \<in> set ?pts"
    unfolding tot by (rule mem_pointsOf_Total [OF assms(4)])
  have only: "length ?pts = length ?ds \<and> ?pts ! i = ?pt" if t: "''Total'' \<notin> set (stockSymbols p)"
    unfolding tot using assms(4) by (simp add: pointsOf_Total [OF t])
  show ?thesis
    using upto [of "Suc i"] walked_currents [of ?M "stockSymbols p" "take (Suc i) ?ds"] total pts
      mem only
    by blast
qed

lemma plan4_symbols: "stockSymbols plan4 = [''A'', ''B'', ''C'', ''D'']"
  by (simp add: stockSymbols_def plan4_def)

lemma data4_quotes:
  "quotes data4 ''A'' = [\<lparr>datetime = 2, close = 100016 / 100000\<rparr>, \<lparr>datetime = 1, close = 1\<rparr>]"
  "quotes data4 ''B'' = [\<lparr>datetime = 2, close = 100016 / 100000\<rparr>, \<lparr>datetime = 1, close = 1\<rparr>]"
  "quotes data4 ''C'' = [\<lparr>datetime = 2, close = 100016 / 100000\<rparr>, \<lparr>datetime = 1, close = 1\<rparr>]"
  "quotes data4 ''D'' = [\<lparr>datetime = 2, close = 100016 / 100000\<rparr>, \<lparr>datetime = 1, close = 1\<rparr>]"
  by (simp_all add: quotes_def data4_def payload4_def)

lemma data4_retrieved: "retrieved data4 plan4"
  by (simp add: retrieved_def plan4_def data4_quotes)

lemma data4_shares:
  "sharesFor data4 plan4 ''A'' = Some 25"
  "sharesFor data4 plan4 ''B'' = Some 25"
  "sharesFor data4 plan4 ''C'' = Some 25"
  "sharesFor data4 plan4 ''D'' = Some 25"
  by (simp_all add: sharesFor_def allocate_def buyShares_def data4_def payload4_def plan4_def)

lemma data4_timeline: "timeline data4 plan4 = [1, 2]"
  by code_simp

lemma data4_valueOn:
  "valueOn (byDateOf data4 [''A'', ''B'', ''C'', ''D''] (sharesFor data4 plan4)) ''A'' = [2 \<mapsto> 6251 / 250, 1 \<mapsto> 25]"
  "valueOn (byDateOf data4 [''A'', ''B'', ''C'', ''D''] (sharesFor data4 plan4)) ''B'' = [2 \<mapsto> 6251 / 250, 1 \<mapsto> 25]"
  "valueOn (byDateOf data4 [''A'', ''B'', ''C'', ''D''] (sharesFor data4 plan4)) ''C'' = [2 \<mapsto> 6251 / 250, 1 \<mapsto> 25]"
  "valueOn (byDateOf data4 [''A'', ''B'', ''C'', ''D''] (sharesFor data4 plan4)) ''D'' = [2 \<mapsto> 6251 / 250, 1 \<mapsto> 25]"
  by (simp_all add: valueOn_def byDateOf_def data4_quotes data4_shares fun_eq_iff)

lemma toFixed2_examples:
  "toFixed2 25 = ''25.00''"
  "toFixed2 (6251 / 250) = ''25.00''"
  "toFixed2 100 = ''100.00''"
  "toFixed2 (12502 / 125) = ''100.02''"
  "toFixed2 120 = ''120.00''"
  "toFixed2 140 = ''140.00''"
  "toFixed2 200 = ''200.00''"
  "toFixed2 220 = ''220.00''"
  "toFixed2 340 = ''340.00''"
  by (simp_all add: toFixed2_def cents_def Let_def floor_rat_numeral decimal_small decimal_large
      digitChar_def)

lemma parseFixed_examples:
  "parseFixed ''25.00'' = 25"
  "parseFixed ''100.02'' = 10002 / 100"
  by (simp_all add: parseFixed_def unsigned_def parseNat_def digitValue_def)

lemma data4_symbol_series:
  "seriesData data4 plan4 ''A'' = Some [\<lparr>point_x = 1, point_y = ''25.00''\<rparr>, \<lparr>point_x = 2, point_y = ''25.00''\<rparr>]"
  "seriesData data4 plan4 ''B'' = Some [\<lparr>point_x = 1, point_y = ''25.00''\<rparr>, \<lparr>point_x = 2, point_y = ''25.00''\<rparr>]"
  "seriesData data4 plan4 ''C'' = Some [\<lparr>point_x = 1, point_y = ''25.00''\<rparr>, \<lparr>point_x = 2, point_y = ''25.00''\<rparr>]"
  "seriesData data4 plan4 ''D'' = Some [\<lparr>point_x = 1, point_y = ''25.00''\<rparr>, \<lparr>point_x = 2, point_y = ''25.00''\<rparr>]"
  by (simp_all add: seriesData_pointsOf [OF data4_retrieved] plan4_symbols data4_timeline
      pointsOf_symbol data4_valueOn toFixed2_examples)

lemma data4_total_series:
  "seriesData data4 plan4 ''Total'' =
     Some [\<lparr>point_x = 1, point_y = ''100.00''\<rparr>, \<lparr>point_x = 2, point_y = ''100.02''\<rparr>]"
proof -
  have "[0..<2] = [0, Suc 0]"
    by (simp add: numeral_2_eq_2)
  then show ?thesis
    by (simp add: seriesData_pointsOf [OF data4_retrieved] plan4_symbols data4_timeline
        pointsOf_Total totalAt_def carried_def data4_valueOn toFixed2_examples)
qed

lemma data4_priced: "priced data4 plan4"
  by (simp add: priced_def plan4_def data4_quotes)

theorem total_is_sum_of_current_values_witness:
  "\<exists>wi vs pts. valuationUpTo 2 data4 plan4 = Inr wi \<and>
      map (currentValues wi) [''A'', ''B'', ''C'', ''D''] = map Some vs \<and>
      portfolioValue wi = foldl (+) 0 vs \<and>
      seriesData data4 plan4 ''Total'' = Some pts \<and>
      \<lparr>point_x = 2, point_y = toFixed2 (portfolioValue wi)\<rparr> \<in> set pts \<and>
      length pts = 2 \<and>
      pts ! 1 = \<lparr>point_x = 2, point_y = toFixed2 (portfolioValue wi)\<rparr>"
proof -
  have d: "distinct (stockSymbols plan4)" and t: "''Total'' \<notin> set (stockSymbols plan4)"
    by (simp_all add: plan4_symbols)
  have i: "1 < length (timeline data4 plan4)"
    by (simp add: data4_timeline)
  from total_is_sum_of_current_values [OF data4_retrieved d data4_priced i] t show ?thesis
    by (simp add: plan4_symbols data4_timeline numeral_2_eq_2)
qed

text \<open>
  With four symbols worth 25.004 each, every symbol's point reads \<open>25.00\<close> and the point of
  the total reads \<open>100.02\<close>: two cents away from the sum of the four.
\<close>

theorem total_is_sum_of_current_values_counterexample:
  "seriesData data4 plan4 ''Total'' =
     Some [\<lparr>point_x = 1, point_y = ''100.00''\<rparr>, \<lparr>point_x = 2, point_y = ''100.02''\<rparr>] \<and>
   seriesData data4 plan4 ''A'' =
     Some [\<lparr>point_x = 1, point_y = ''25.00''\<rparr>, \<lparr>point_x = 2, point_y = ''25.00''\<rparr>] \<and>
   seriesData data4 plan4 ''B'' =
     Some [\<lparr>point_x = 1, point_y = ''25.00''\<rparr>, \<lparr>point_x = 2, point_y = ''25.00''\<rparr>] \<and>
   seriesData data4 plan4 ''C'' =
     Some [\<lparr>point_x = 1, point_y = ''25.00''\<rparr>, \<lparr>point_x = 2, point_y = ''25.00''\<rparr>] \<and>
   seriesData data4 plan4 ''D'' =
     Some [\<lparr>point_x = 1, point_y = ''25.00''\<rparr>, \<lparr>point_x = 2, point_y = ''25.00''\<rparr>] \<and>
   \<not> \<bar>parseFixed ''100.02'' -
        (parseFixed ''25.00'' + parseFixed ''25.00'' + parseFixed ''25.00'' + parseFixed ''25.00'')\<bar>
      \<le> 1 / 100"
  using data4_total_series data4_symbol_series by (simp add: parseFixed_examples)

subsection \<open>C5: the points of the series\<close>

lemma mem_pointsOf_symbol:
  assumes "s \<in> set syms" and "s \<noteq> ''Total''"
    and "pt \<in> set (pointsOf byDate syms s ds)"
  shows "\<exists>d \<in> set ds. \<exists>v. valueOn byDate s d = Some v \<and> pt = \<lparr>point_x = d, point_y = toFixed2 v\<rparr>"
proof -
  from assms(3) obtain d where d: "d \<in> set ds"
    and m: "pt \<in> set (case valueOn byDate s d of
                         None \<Rightarrow> []
                       | Some v \<Rightarrow> [\<lparr>point_x = d, point_y = toFixed2 v\<rparr>])"
    unfolding pointsOf_symbol [OF assms(1,2)] by auto
  then show ?thesis by (cases "valueOn byDate s d") auto
qed

lemma shares_defined:
  assumes "allocate stockData p = Inr sh" and "s \<in> set (stockSymbols p)"
  obtains x where "sh s = Some x" and "sharesFor stockData p s = Some x"
proof -
  have "s \<in> dom sh"
    using allocate_dom [OF assms(1)] assms(2) by simp
  then obtain x where "sh s = Some x" by blast
  then show ?thesis
    using that by (simp add: sharesFor_def assms(1))
qed

text \<open>
  C5, as the code has it. The series named after a symbol has a point on each date on
  which the symbol itself has a quote, and on no other date; the point holds the
  formatted value \<open>shares * close\<close> of the symbol on that date. The series of the total has
  a point on every date of the timeline, which holds the formatted total of that date.
\<close>

theorem series_points:
  fixes stockData :: "('d::linorder) stockData"
  assumes "retrieved stockData p" and "distinct (stockSymbols p)"
    and "''Total'' \<notin> set (stockSymbols p)"
  shows "\<exists>w. valuation stockData p = Inr w \<and>
           (\<forall>s \<in> set (stockSymbols p). \<exists>ser sh.
               newChartSeries w s = Some ser \<and> series_name ser = s \<and>
               sharesFor stockData p s = Some sh \<and>
               point_x ` set (series_data ser) = datetime ` set (quotes stockData s) \<and>
               (\<forall>pt \<in> set (series_data ser). \<exists>t \<in> set (quotes stockData s).
                   point_x pt = datetime t \<and> point_y pt = toFixed2 (sh * close t))) \<and>
           (\<exists>tot. newChartSeries w ''Total'' = Some tot \<and> series_name tot = ''Total'' \<and>
               map point_x (series_data tot) = timeline stockData p \<and>
               (\<forall>i < length (timeline stockData p). \<exists>wi.
                   valuationUpTo (Suc i) stockData p = Inr wi \<and>
                   point_y (series_data tot ! i) = toFixed2 (portfolioValue wi)))"
proof -
  from valuation_walked [OF assms(1,2)] obtain sh w where
    sh: "allocate stockData p = Inr sh"
    and v: "valuation stockData p = Inr w"
    and w: "w = walked (byDateOf stockData (stockSymbols p) sh) (stockSymbols p) (timeline stockData p)"
    and upto: "\<And>n. valuationUpTo n stockData p =
       Inr (walked (byDateOf stockData (stockSymbols p) sh) (stockSymbols p)
              (take n (timeline stockData p)))"
    by metis
  let ?M = "byDateOf stockData (stockSymbols p) sh"
  let ?syms = "stockSymbols p"
  let ?ds = "timeline stockData p"
  have union: "set ?ds = (\<Union>s \<in> set ?syms. datetime ` set (quotes stockData s))"
    using timeline_props(2) [OF sh assms(2)] .
  have symbols: "\<exists>ser x. newChartSeries w s = Some ser \<and> series_name ser = s \<and>
               sharesFor stockData p s = Some x \<and>
               point_x ` set (series_data ser) = datetime ` set (quotes stockData s) \<and>
               (\<forall>pt \<in> set (series_data ser). \<exists>t \<in> set (quotes stockData s).
                   point_x pt = datetime t \<and> point_y pt = toFixed2 (x * close t))"
    if s: "s \<in> set ?syms" for s
  proof -
    let ?ser = "\<lparr>series_name = s, series_type = ''area'', series_data = pointsOf ?M ?syms s ?ds\<rparr>"
    have neq: "s \<noteq> ''Total''"
      using assms(3) s by auto
    from shares_defined [OF sh s] obtain x where x: "sh s = Some x" "sharesFor stockData p s = Some x"
      by blast
    have ser: "newChartSeries w s = Some ?ser"
      unfolding w by (rule walked_series) (simp add: s)
    have "map point_x (series_data ?ser) =
        filter (\<lambda>d. d \<in> datetime ` set (quotes stockData s)) ?ds"
      using dates_pointsOf_symbol [OF s neq, of ?M ?ds] by (simp add: valueOn_None_iff [OF s])
    then have "set (map point_x (series_data ?ser)) =
        set (filter (\<lambda>d. d \<in> datetime ` set (quotes stockData s)) ?ds)"
      by (rule arg_cong)
    then have dates: "point_x ` set (series_data ?ser) = datetime ` set (quotes stockData s)"
      using union s by auto
    have vals: "\<exists>t \<in> set (quotes stockData s).
        point_x pt = datetime t \<and> point_y pt = toFixed2 (x * close t)"
      if "pt \<in> set (series_data ?ser)" for pt
    proof -
      from that have "pt \<in> set (pointsOf ?M ?syms s ?ds)" by simp
      from mem_pointsOf_symbol [OF s neq this] obtain d y where
        d: "valueOn ?M s d = Some y" and pt: "pt = \<lparr>point_x = d, point_y = toFixed2 y\<rparr>"
        by blast
      from valueOn_Some [OF s d] obtain t where
        "t \<in> set (quotes stockData s)" "datetime t = d" "y = the (sh s) * close t"
        by blast
      then show ?thesis using pt x(1) by auto
    qed
    show ?thesis
      using ser x(2) dates vals by (intro exI [of _ ?ser] exI [of _ x]) simp
  qed
  let ?tot = "\<lparr>series_name = ''Total'', series_type = ''area'',
               series_data = pointsOf ?M ?syms ''Total'' ?ds\<rparr>"
  have tot: "newChartSeries w ''Total'' = Some ?tot"
    unfolding w by (rule walked_series) simp
  have tdates: "map point_x (series_data ?tot) = ?ds"
    by (simp add: dates_pointsOf_Total [OF assms(3)])
  have tvalues: "\<exists>wi. valuationUpTo (Suc i) stockData p = Inr wi \<and>
                   point_y (series_data ?tot ! i) = toFixed2 (portfolioValue wi)"
    if i: "i < length ?ds" for i
  proof -
    have "take (Suc i) ?ds \<noteq> []"
      using i by auto
    then have "portfolioValue (walked ?M ?syms (take (Suc i) ?ds)) = totalAt ?M ?syms (take (Suc i) ?ds)"
      by (rule walked_total)
    then show ?thesis
      using upto [of "Suc i"] by (simp add: nth_pointsOf_Total [OF assms(3) i])
  qed
  have "\<exists>tot. newChartSeries w ''Total'' = Some tot \<and> series_name tot = ''Total'' \<and>
               map point_x (series_data tot) = ?ds \<and>
               (\<forall>i < length ?ds. \<exists>wi.
                   valuationUpTo (Suc i) stockData p = Inr wi \<and>
                   point_y (series_data tot ! i) = toFixed2 (portfolioValue wi))"
    using tot tdates tvalues by (intro exI [of _ ?tot]) simp
  with v symbols show ?thesis by blast
qed

lemma dataAB_series_A:
  "seriesData dataAB planAB ''A'' =
     Some [\<lparr>point_x = 1, point_y = ''100.00''\<rparr>, \<lparr>point_x = 3, point_y = ''200.00''\<rparr>]"
  by (simp add: seriesData_pointsOf [OF dataAB_retrieved] planAB_symbols dataAB_timeline
      pointsOf_symbol dataAB_valueOn toFixed2_examples)

theorem series_points_witness:
  "\<exists>w. valuation dataAB planAB = Inr w \<and>
      (\<exists>ser. newChartSeries w ''A'' = Some ser \<and> series_name ser = ''A'' \<and>
          point_x ` set (series_data ser) = {1, 3} \<and>
          (\<forall>pt \<in> set (series_data ser).
              (point_x pt = 3 \<and> point_y pt = ''200.00'') \<or>
              (point_x pt = 1 \<and> point_y pt = ''100.00''))) \<and>
      (\<exists>tot. newChartSeries w ''Total'' = Some tot \<and> series_name tot = ''Total'' \<and>
          map point_x (series_data tot) = [1, 2, 3])"
proof -
  have d: "distinct (stockSymbols planAB)" and t: "''Total'' \<notin> set (stockSymbols planAB)"
    and a: "''A'' \<in> set (stockSymbols planAB)"
    by (simp_all add: planAB_symbols)
  have q: "datetime ` set (quotes dataAB ''A'') = {1, 3}"
    by (simp add: dataAB_quotes) blast
  from series_points [OF dataAB_retrieved d t] obtain w where
    v: "valuation dataAB planAB = Inr w"
    and s: "\<forall>s \<in> set (stockSymbols planAB). \<exists>ser sh.
               newChartSeries w s = Some ser \<and> series_name ser = s \<and>
               sharesFor dataAB planAB s = Some sh \<and>
               point_x ` set (series_data ser) = datetime ` set (quotes dataAB s) \<and>
               (\<forall>pt \<in> set (series_data ser). \<exists>t \<in> set (quotes dataAB s).
                   point_x pt = datetime t \<and> point_y pt = toFixed2 (sh * close t))"
    and tot: "\<exists>tot. newChartSeries w ''Total'' = Some tot \<and> series_name tot = ''Total'' \<and>
               map point_x (series_data tot) = timeline dataAB planAB \<and>
               (\<forall>i < length (timeline dataAB planAB). \<exists>wi.
                   valuationUpTo (Suc i) dataAB planAB = Inr wi \<and>
                   point_y (series_data tot ! i) = toFixed2 (portfolioValue wi))"
    by blast
  from s a obtain ser sh where
    ser: "newChartSeries w ''A'' = Some ser" "series_name ser = ''A''"
    "sharesFor dataAB planAB ''A'' = Some sh"
    "point_x ` set (series_data ser) = datetime ` set (quotes dataAB ''A'')"
    "\<forall>pt \<in> set (series_data ser). \<exists>t \<in> set (quotes dataAB ''A'').
        point_x pt = datetime t \<and> point_y pt = toFixed2 (sh * close t)"
    by blast
  have sh: "sh = 10"
    using ser(3) dataAB_shares(1) by simp
  have pts: "\<forall>pt \<in> set (series_data ser).
              (point_x pt = 3 \<and> point_y pt = ''200.00'') \<or>
              (point_x pt = 1 \<and> point_y pt = ''100.00'')"
    using ser(5) unfolding sh by (simp add: dataAB_quotes toFixed2_examples)
  have A: "\<exists>ser. newChartSeries w ''A'' = Some ser \<and> series_name ser = ''A'' \<and>
          point_x ` set (series_data ser) = {1, 3} \<and>
          (\<forall>pt \<in> set (series_data ser).
              (point_x pt = 3 \<and> point_y pt = ''200.00'') \<or>
              (point_x pt = 1 \<and> point_y pt = ''100.00''))"
    using ser(1,2) ser(4) [unfolded q] pts by (intro exI [of _ ser]) simp
  from tot have T: "\<exists>tot. newChartSeries w ''Total'' = Some tot \<and> series_name tot = ''Total'' \<and>
          map point_x (series_data tot) = [1, 2, 3]"
    by (auto simp: dataAB_timeline)
  from v A T show ?thesis
    by (intro exI [of _ w] conjI)
qed

text \<open>
  The timeline has the three dates; the series of \<open>A\<close> has a point on \<open>d1\<close> and on \<open>d3\<close>
  and none on \<open>d2\<close>, where \<open>A\<close> has no quote.
\<close>

theorem series_points_counterexample:
  "timeline dataAB planAB = [1, 2, 3] \<and>
   seriesData dataAB planAB ''A'' =
     Some [\<lparr>point_x = 1, point_y = ''100.00''\<rparr>, \<lparr>point_x = 3, point_y = ''200.00''\<rparr>]"
  using dataAB_timeline dataAB_series_A by simp

subsection \<open>C7: rounding at the output only\<close>

lemma mem_pointsOf:
  assumes "pt \<in> set (pointsOf byDate syms sName ds)"
  shows "\<exists>k < length ds. pt \<in> set (emitted byDate syms sName (take (Suc k) ds))"
  using assms unfolding pointsOf_def by auto

lemma mem_emitted:
  assumes "pt \<in> set (emitted byDate syms sName (take (Suc k) ds))" and "k < length ds"
  obtains (quote) v where "sName \<in> set syms" and "valueOn byDate sName (ds ! k) = Some v"
      and "pt = \<lparr>point_x = ds ! k, point_y = toFixed2 v\<rparr>"
    | (total) "pt = \<lparr>point_x = ds ! k, point_y = toFixed2 (totalAt byDate syms (take (Suc k) ds))\<rparr>"
proof -
  let ?pre = "take (Suc k) ds"
  have l: "last ?pre = ds ! k"
    using assms(2) by (simp add: take_Suc_conv_app_nth)
  have m: "pt \<in> set (if sName \<in> set syms
       then (case valueOn byDate sName (ds ! k) of
               Some v \<Rightarrow> [\<lparr>point_x = ds ! k, point_y = toFixed2 v\<rparr>]
             | None \<Rightarrow> [])
       else []) \<or>
      pt \<in> set (if sName = ''Total''
         then [\<lparr>point_x = ds ! k, point_y = toFixed2 (totalAt byDate syms ?pre)\<rparr>]
         else [])"
    using assms(1) by (simp only: emitted_def l set_append Un_iff)
  then show thesis
  proof
    assume a: "pt \<in> set (if sName \<in> set syms
       then (case valueOn byDate sName (ds ! k) of
               Some v \<Rightarrow> [\<lparr>point_x = ds ! k, point_y = toFixed2 v\<rparr>]
             | None \<Rightarrow> [])
       else [])"
    show thesis
    proof (cases "sName \<in> set syms")
      case True
      note s = this
      show thesis
      proof (cases "valueOn byDate sName (ds ! k)")
        case None
        with a s show thesis by simp
      next
        case (Some v)
        with a s have "pt = \<lparr>point_x = ds ! k, point_y = toFixed2 v\<rparr>" by simp
        with s Some show thesis by (rule quote)
      qed
    next
      case False
      with a show thesis by simp
    qed
  next
    assume a: "pt \<in> set (if sName = ''Total''
         then [\<lparr>point_x = ds ! k, point_y = toFixed2 (totalAt byDate syms ?pre)\<rparr>]
         else [])"
    show thesis
    proof (cases "sName = ''Total''")
      case True
      with a have "pt = \<lparr>point_x = ds ! k, point_y = toFixed2 (totalAt byDate syms ?pre)\<rparr>"
        by simp
      then show thesis by (rule total)
    next
      case False
      with a show thesis by simp
    qed
  qed
qed

lemma carried_at_quote:
  assumes "valueOn byDate s (ds ! k) = Some v" and "k < length ds"
  shows "carried byDate s (take (Suc k) ds) = v"
  using assms by (simp add: take_Suc_conv_app_nth carried_snoc)

lemma carried_value:
  "carried byDate s ds = 0 \<or> (\<exists>d \<in> set ds. valueOn byDate s d = Some (carried byDate s ds))"
proof (induction ds rule: rev_induct)
  case Nil
  then show ?case by simp
next
  case (snoc d ds)
  show ?case
  proof (cases "valueOn byDate s d")
    case None
    with snoc show ?thesis by (auto simp: carried_snoc)
  next
    case (Some v)
    then show ?thesis by (simp add: carried_snoc)
  qed
qed

lemma value_bounded:
  assumes "amountsBounded stockData p" and "distinct (stockSymbols p)"
    and "allocate stockData p = Inr sh" and "s \<in> set (stockSymbols p)"
    and "valueOn (byDateOf stockData (stockSymbols p) sh) s d = Some v"
  shows "of_nat (length (stockSymbols p)) * \<bar>v\<bar> < 10 ^ 20"
proof -
  from assms(4) obtain a where a: "a \<in> set (assets p)" "symbol a = s"
    by (auto simp: stockSymbols_def)
  from allocate_shares [OF assms(3,2) a(1)]
  have x: "sh s = Some (sharesOf stockData (initial p) a)"
    by (simp add: a(2))
  from valueOn_Some [OF assms(4,5)] obtain t where
    t: "t \<in> set (quotes stockData s)" "v = sharesOf stockData (initial p) a * close t"
    by (auto simp: x)
  have "length (stockSymbols p) = length (assets p)"
    by (simp add: stockSymbols_def)
  with assms(1) a t show ?thesis
    unfolding amountsBounded_def by auto
qed

lemma carried_bounded:
  assumes "amountsBounded stockData p" and "distinct (stockSymbols p)"
    and "allocate stockData p = Inr sh" and "s \<in> set (stockSymbols p)"
  shows "of_nat (length (stockSymbols p)) *
           \<bar>carried (byDateOf stockData (stockSymbols p) sh) s ds\<bar> < 10 ^ 20"
  using carried_value [of "byDateOf stockData (stockSymbols p) sh" s ds]
proof
  assume "carried (byDateOf stockData (stockSymbols p) sh) s ds = 0"
  then show ?thesis by simp
next
  assume "\<exists>d \<in> set ds. valueOn (byDateOf stockData (stockSymbols p) sh) s d =
            Some (carried (byDateOf stockData (stockSymbols p) sh) s ds)"
  then obtain d where "valueOn (byDateOf stockData (stockSymbols p) sh) s d =
            Some (carried (byDateOf stockData (stockSymbols p) sh) s ds)"
    by blast
  from value_bounded [OF assms this] show ?thesis .
qed

lemma sum_list_bounded:
  fixes f :: "'a \<Rightarrow> rat"
  assumes "\<And>x. x \<in> set xs \<Longrightarrow> \<bar>f x\<bar> \<le> c"
  shows "\<bar>sum_list (map f xs)\<bar> \<le> of_nat (length xs) * c"
  using assms
proof (induction xs)
  case Nil
  then show ?case by simp
next
  case (Cons x xs)
  have "\<bar>f x + sum_list (map f xs)\<bar> \<le> \<bar>f x\<bar> + \<bar>sum_list (map f xs)\<bar>"
    by (rule abs_triangle_ineq)
  also have "\<dots> \<le> c + of_nat (length xs) * c"
    using Cons by (intro add_mono) simp_all
  finally show ?case
    by (simp add: algebra_simps)
qed

lemma total_bounded:
  assumes "amountsBounded stockData p" and "distinct (stockSymbols p)"
    and "allocate stockData p = Inr sh"
  shows "\<bar>totalAt (byDateOf stockData (stockSymbols p) sh) (stockSymbols p) ds\<bar> \<le> 10 ^ 20"
proof (cases "stockSymbols p = []")
  case True
  then show ?thesis by (simp add: totalAt_def)
next
  case False
  let ?n = "of_nat (length (stockSymbols p)) :: rat"
  have n: "0 < ?n"
    using False by simp
  have "\<bar>carried (byDateOf stockData (stockSymbols p) sh) s ds\<bar> \<le> 10 ^ 20 / ?n"
    if "s \<in> set (stockSymbols p)" for s
    using carried_bounded [OF assms that, of ds] n
    by (simp add: pos_le_divide_eq mult.commute less_imp_le)
  then have "\<bar>totalAt (byDateOf stockData (stockSymbols p) sh) (stockSymbols p) ds\<bar>
      \<le> ?n * (10 ^ 20 / ?n)"
    unfolding totalAt_def by (rule sum_list_bounded)
  also have "\<dots> = 10 ^ 20"
    using n by simp
  finally show ?thesis .
qed

lemma value_small:
  assumes "amountsBounded stockData p" and "distinct (stockSymbols p)"
    and "allocate stockData p = Inr sh" and "s \<in> set (stockSymbols p)"
    and "valueOn (byDateOf stockData (stockSymbols p) sh) s d = Some v"
  shows "\<bar>v\<bar> < 10 ^ 21"
proof -
  let ?n = "of_nat (length (stockSymbols p)) :: rat"
  have "1 \<le> length (stockSymbols p)"
    using assms(4) by (cases "stockSymbols p") simp_all
  then have "1 \<le> ?n"
    by simp
  then have "1 * \<bar>v\<bar> \<le> ?n * \<bar>v\<bar>"
    by (intro mult_right_mono) simp_all
  also have "\<dots> < 10 ^ 20"
    by (rule value_bounded [OF assms])
  finally show ?thesis by simp
qed

text \<open>
  C7, as the code has it. When the amounts are bounded as above, every \<open>y\<close> of every series
  has exactly two decimals (sign, digits, point, two digits): it is the \<^verbatim>\<open>toFixed(2)\<close> string
  of a value the walk holds on the date of the point, the current value of the series'
  symbol or the total. The values the walk holds are not rounded to cents: a current value
  is \<open>0\<close> or the product \<open>shares * close\<close> of one of the symbol's quotes, and the total is
  the sum of the current values, added up from \<open>0\<close> in the order of the plan.
\<close>

theorem rounding_only_at_output:
  fixes stockData :: "('d::linorder) stockData"
  assumes "retrieved stockData p" and "distinct (stockSymbols p)"
    and "amountsBounded stockData p"
  shows "\<exists>w. valuation stockData p = Inr w \<and>
           (\<forall>sName ser pt. newChartSeries w sName = Some ser \<and> pt \<in> set (series_data ser) \<longrightarrow>
               twoDecimals (point_y pt) \<and>
               (\<exists>i wi. i < length (timeline stockData p) \<and>
                   valuationUpTo (Suc i) stockData p = Inr wi \<and>
                   point_x pt = timeline stockData p ! i \<and>
                   (point_y pt = toFixed2 (portfolioValue wi) \<or>
                    (\<exists>v. currentValues wi sName = Some v \<and> point_y pt = toFixed2 v)))) \<and>
           (\<forall>i < length (timeline stockData p). \<exists>wi vs.
               valuationUpTo (Suc i) stockData p = Inr wi \<and>
               map (currentValues wi) (stockSymbols p) = map Some vs \<and>
               portfolioValue wi = foldl (+) 0 vs \<and>
               (\<forall>s \<in> set (stockSymbols p). \<exists>sh v.
                   sharesFor stockData p s = Some sh \<and> currentValues wi s = Some v \<and>
                   (v = 0 \<or> (\<exists>t \<in> set (quotes stockData s). v = sh * close t))))"
proof -
  from valuation_walked [OF assms(1,2)] obtain sh w where
    sh: "allocate stockData p = Inr sh"
    and v: "valuation stockData p = Inr w"
    and w: "w = walked (byDateOf stockData (stockSymbols p) sh) (stockSymbols p) (timeline stockData p)"
    and upto: "\<And>n. valuationUpTo n stockData p =
       Inr (walked (byDateOf stockData (stockSymbols p) sh) (stockSymbols p)
              (take n (timeline stockData p)))"
    by metis
  let ?M = "byDateOf stockData (stockSymbols p) sh"
  let ?syms = "stockSymbols p"
  let ?ds = "timeline stockData p"
  have points: "twoDecimals (point_y pt) \<and>
               (\<exists>i wi. i < length ?ds \<and>
                   valuationUpTo (Suc i) stockData p = Inr wi \<and>
                   point_x pt = ?ds ! i \<and>
                   (point_y pt = toFixed2 (portfolioValue wi) \<or>
                    (\<exists>v. currentValues wi sName = Some v \<and> point_y pt = toFixed2 v)))"
    if ser: "newChartSeries w sName = Some ser" and pt: "pt \<in> set (series_data ser)"
    for sName ser pt
  proof -
    have "series_data ser = pointsOf ?M ?syms sName ?ds"
      using ser unfolding w by (auto simp: walked_def split: if_splits)
    with pt have "pt \<in> set (pointsOf ?M ?syms sName ?ds)" by simp
    from mem_pointsOf [OF this] obtain k where
      k: "k < length ?ds" and e: "pt \<in> set (emitted ?M ?syms sName (take (Suc k) ?ds))"
      by blast
    let ?wk = "walked ?M ?syms (take (Suc k) ?ds)"
    have ne: "take (Suc k) ?ds \<noteq> []"
      using k by auto
    have xh: "twoDecimals (point_y pt) \<and> point_x pt = ?ds ! k \<and>
        (point_y pt = toFixed2 (portfolioValue ?wk) \<or>
         (\<exists>v. currentValues ?wk sName = Some v \<and> point_y pt = toFixed2 v))"
      using e k
    proof (cases rule: mem_emitted)
      case (quote v)
      have "currentValues ?wk sName = Some v"
        by (simp add: walked_current [OF quote(1)] carried_at_quote [OF quote(2) k])
      moreover have "point_y pt = toFixed2 v" and "point_x pt = ?ds ! k"
        by (simp_all add: quote(3))
      moreover have "twoDecimals (toFixed2 v)"
        by (rule twoDecimals_toFixed2 [OF value_small [OF assms(3,2) sh quote(1,2)]])
      ultimately show ?thesis by metis
    next
      case total
      have "point_y pt = toFixed2 (portfolioValue ?wk)" and "point_x pt = ?ds ! k"
        by (simp_all add: total walked_total [OF ne])
      moreover have "\<bar>portfolioValue ?wk\<bar> < 10 ^ 21"
        using total_bounded [OF assms(3,2) sh, of "take (Suc k) ?ds"]
        by (simp add: walked_total [OF ne])
      then have "twoDecimals (toFixed2 (portfolioValue ?wk))"
        by (rule twoDecimals_toFixed2)
      ultimately show ?thesis by metis
    qed
    with k upto [of "Suc k"] show ?thesis by blast
  qed
  have states: "\<exists>wi vs. valuationUpTo (Suc i) stockData p = Inr wi \<and>
               map (currentValues wi) ?syms = map Some vs \<and>
               portfolioValue wi = foldl (+) 0 vs \<and>
               (\<forall>s \<in> set ?syms. \<exists>x v.
                   sharesFor stockData p s = Some x \<and> currentValues wi s = Some v \<and>
                   (v = 0 \<or> (\<exists>t \<in> set (quotes stockData s). v = x * close t)))"
    if i: "i < length ?ds" for i
  proof -
    let ?pre = "take (Suc i) ?ds"
    let ?wi = "walked ?M ?syms ?pre"
    let ?vs = "map (\<lambda>s. carried ?M s ?pre) ?syms"
    have ne: "?pre \<noteq> []"
      using i by auto
    have total: "portfolioValue ?wi = foldl (+) 0 ?vs"
      by (simp add: walked_total [OF ne] totalAt_def foldl_plus)
    have exact: "\<exists>x v. sharesFor stockData p s = Some x \<and> currentValues ?wi s = Some v \<and>
                   (v = 0 \<or> (\<exists>t \<in> set (quotes stockData s). v = x * close t))"
      if s: "s \<in> set ?syms" for s
    proof -
      from shares_defined [OF sh s] obtain x where x: "sh s = Some x" "sharesFor stockData p s = Some x"
        by blast
      have cur: "currentValues ?wi s = Some (carried ?M s ?pre)"
        by (rule walked_current [OF s])
      from carried_value [of ?M s ?pre]
      have "carried ?M s ?pre = 0 \<or> (\<exists>t \<in> set (quotes stockData s). carried ?M s ?pre = x * close t)"
      proof
        assume "carried ?M s ?pre = 0"
        then show ?thesis by simp
      next
        assume "\<exists>d \<in> set ?pre. valueOn ?M s d = Some (carried ?M s ?pre)"
        then obtain d where "valueOn ?M s d = Some (carried ?M s ?pre)" by blast
        from valueOn_Some [OF s this] show ?thesis using x(1) by auto
      qed
      with x(2) cur show ?thesis by blast
    qed
    show ?thesis
      using upto [of "Suc i"] walked_currents [of ?M ?syms ?pre] total exact by blast
  qed
  from v points states show ?thesis by blast
qed

lemma dataAB_bounded: "amountsBounded dataAB planAB"
  by (simp add: amountsBounded_def planAB_def sharesOf_def dataAB_quotes)

theorem rounding_only_at_output_witness:
  "\<exists>w. valuation dataAB planAB = Inr w \<and>
      (\<exists>ser. newChartSeries w ''A'' = Some ser \<and>
          series_data ser = [\<lparr>point_x = 1, point_y = ''100.00''\<rparr>,
                             \<lparr>point_x = 3, point_y = ''200.00''\<rparr>]) \<and>
      twoDecimals ''100.00'' \<and> twoDecimals ''200.00'' \<and>
      (\<exists>wi vs. valuationUpTo 2 dataAB planAB = Inr wi \<and>
          map (currentValues wi) [''A'', ''B''] = map Some vs \<and>
          portfolioValue wi = foldl (+) 0 vs)"
proof -
  have d: "distinct (stockSymbols planAB)"
    by (simp add: planAB_symbols)
  have i: "1 < length (timeline dataAB planAB)"
    by (simp add: dataAB_timeline)
  from rounding_only_at_output [OF dataAB_retrieved d dataAB_bounded] obtain w where
    v: "valuation dataAB planAB = Inr w"
    and p: "\<forall>sName ser pt. newChartSeries w sName = Some ser \<and> pt \<in> set (series_data ser) \<longrightarrow>
               twoDecimals (point_y pt) \<and>
               (\<exists>i wi. i < length (timeline dataAB planAB) \<and>
                   valuationUpTo (Suc i) dataAB planAB = Inr wi \<and>
                   point_x pt = timeline dataAB planAB ! i \<and>
                   (point_y pt = toFixed2 (portfolioValue wi) \<or>
                    (\<exists>v. currentValues wi sName = Some v \<and> point_y pt = toFixed2 v)))"
    and s: "\<forall>i < length (timeline dataAB planAB). \<exists>wi vs.
               valuationUpTo (Suc i) dataAB planAB = Inr wi \<and>
               map (currentValues wi) (stockSymbols planAB) = map Some vs \<and>
               portfolioValue wi = foldl (+) 0 vs \<and>
               (\<forall>s \<in> set (stockSymbols planAB). \<exists>sh v.
                   sharesFor dataAB planAB s = Some sh \<and> currentValues wi s = Some v \<and>
                   (v = 0 \<or> (\<exists>t \<in> set (quotes dataAB s). v = sh * close t)))"
    by blast
  let ?p1 = "\<lparr>point_x = 1 :: nat, point_y = ''100.00''\<rparr>"
  let ?p3 = "\<lparr>point_x = 3 :: nat, point_y = ''200.00''\<rparr>"
  from dataAB_series_A v obtain ser where
    ser: "newChartSeries w ''A'' = Some ser" "series_data ser = [?p1, ?p3]"
    by (auto simp: seriesData_def)
  have "?p1 \<in> set (series_data ser)" and "?p3 \<in> set (series_data ser)"
    by (simp_all add: ser(2))
  with p ser(1) have "twoDecimals (point_y ?p1)" and "twoDecimals (point_y ?p3)"
    by blast+
  then have two: "twoDecimals ''100.00''" "twoDecimals ''200.00''"
    by simp_all
  from s i obtain wi vs where
    "valuationUpTo (Suc 1) dataAB planAB = Inr wi"
    "map (currentValues wi) (stockSymbols planAB) = map Some vs"
    "portfolioValue wi = foldl (+) 0 vs"
    by blast
  then have st: "\<exists>wi vs. valuationUpTo 2 dataAB planAB = Inr wi \<and>
          map (currentValues wi) [''A'', ''B''] = map Some vs \<and>
          portfolioValue wi = foldl (+) 0 vs"
    by (auto simp: planAB_symbols numeral_2_eq_2)
  have se: "\<exists>ser. newChartSeries w ''A'' = Some ser \<and> series_data ser = [?p1, ?p3]"
    using ser by blast
  show ?thesis
  proof (rule exI [of _ w])
    from v se two st
    show "valuation dataAB planAB = Inr w \<and>
      (\<exists>ser. newChartSeries w ''A'' = Some ser \<and> series_data ser = [?p1, ?p3]) \<and>
      twoDecimals ''100.00'' \<and> twoDecimals ''200.00'' \<and>
      (\<exists>wi vs. valuationUpTo 2 dataAB planAB = Inr wi \<and>
          map (currentValues wi) [''A'', ''B''] = map Some vs \<and>
          portfolioValue wi = foldl (+) 0 vs)"
      by (intro conjI)
  qed
qed

lemma dataLarge_quotes: "quotes dataLarge ''X'' = [\<lparr>datetime = 1, close = 1\<rparr>]"
  by (simp add: quotes_def dataLarge_def)

lemma dataLarge_retrieved: "retrieved dataLarge planLarge"
  by (simp add: retrieved_def planLarge_def dataLarge_quotes)

lemma dataLarge_shares: "sharesFor dataLarge planLarge ''X'' = Some 1000000000000000000000"
  by (simp add: sharesFor_def allocate_def buyShares_def dataLarge_def planLarge_def)

lemma dataLarge_timeline: "timeline dataLarge planLarge = [1]"
  by code_simp

lemma dataLarge_valueOn:
  "valueOn (byDateOf dataLarge [''X''] (sharesFor dataLarge planLarge)) ''X'' =
     [1 \<mapsto> 1000000000000000000000]"
  by (simp add: valueOn_def byDateOf_def dataLarge_quotes dataLarge_shares fun_eq_iff)

lemma toFixed2_large: "toFixed2 1000000000000000000000 = ''1e+21''"
  by (simp add: toFixed2_def cents_def Let_def exponential_def significant_def
      decimal_small decimal_large digitChar_def)

text \<open>
  From \<open>10^21\<close> on a value is not printed with two decimals: with \<open>10^21\<close> invested at a
  price of 1 the points of the symbol and of the total read \<^verbatim>\<open>1e+21\<close>. The plan has no
  symbol named \<open>Total\<close> and no price of zero.
\<close>

theorem rounding_only_at_output_counterexample:
  "retrieved dataLarge planLarge \<and>
   seriesData dataLarge planLarge ''X'' = Some [\<lparr>point_x = 1, point_y = ''1e+21''\<rparr>] \<and>
   seriesData dataLarge planLarge ''Total'' = Some [\<lparr>point_x = 1, point_y = ''1e+21''\<rparr>] \<and>
   \<not> twoDecimals ''1e+21''"
proof -
  have s: "stockSymbols planLarge = [''X'']"
    by (simp add: stockSymbols_def planLarge_def)
  have x: "seriesData dataLarge planLarge ''X'' = Some [\<lparr>point_x = 1, point_y = ''1e+21''\<rparr>]"
    by (simp add: seriesData_pointsOf [OF dataLarge_retrieved] s dataLarge_timeline
        pointsOf_symbol dataLarge_valueOn toFixed2_large)
  have t: "seriesData dataLarge planLarge ''Total'' = Some [\<lparr>point_x = 1, point_y = ''1e+21''\<rparr>]"
    by (simp add: seriesData_pointsOf [OF dataLarge_retrieved] s dataLarge_timeline
        pointsOf_Total totalAt_def carried_def dataLarge_valueOn toFixed2_large)
  have n: "\<not> twoDecimals ''1e+21''"
    by (simp add: twoDecimals_def unsigned_def isDigit_def)
  from dataLarge_retrieved x t n show ?thesis
    by (intro conjI)
qed

subsection \<open>The update of the component\<close>

lemma checkRetrieved_fields:
  "isLoading (checkRetrieved stockData syms st) = isLoading st"
  "chartLoaded (checkRetrieved stockData syms st) = chartLoaded st"
  "chartSeries (checkRetrieved stockData syms st) = chartSeries st"
  "finalTotalValue (checkRetrieved stockData syms st) = finalTotalValue st"
  "finalStockValues (checkRetrieved stockData syms st) = finalStockValues st"
  "rawStockData (checkRetrieved stockData syms st) = rawStockData st"
  unfolding checkRetrieved_def
  by (induction syms arbitrary: st; simp add: checkSymbol_def)+

lemma cache_unchanged:
  "rawStockData st = Some a \<Longrightarrow> st\<lparr>isLoading := b, rawStockData := Some a\<rparr> = st\<lparr>isLoading := b\<rparr>"
  by (cases st) simp

lemma updateChartV2_dataUsed:
  "updateChartV2 sampleData p st =
     (let stockData = dataUsed sampleData st;
          st3 = checkRetrieved stockData (stockSymbols p)
                  (st\<lparr>isLoading := True, rawStockData := Some stockData\<rparr>)
      in case valuation stockData p of
           Inl e \<Rightarrow> (Some e, st3)
         | Inr w \<Rightarrow>
             (None,
              st3\<lparr>chartSeries := Some (map (newChartSeries w) (stockSymbols p @ [''Total''])),
                  finalStockValues := map (\<lambda>smb. (smb, currentValues w smb)) (stockSymbols p),
                  finalTotalValue := portfolioValue w,
                  chartLoaded := True,
                  isLoading := False\<rparr>))"
proof (cases "rawStockData st")
  case None
  then show ?thesis
    by (simp add: updateChartV2_def getRawStockData_def dataUsed_def Let_def)
next
  case (Some a)
  have e: "st\<lparr>isLoading := True, rawStockData := Some a\<rparr> = st\<lparr>isLoading := True\<rparr>"
    by (rule cache_unchanged [OF Some])
  have g: "getRawStockData sampleData (st\<lparr>isLoading := True\<rparr>) = (Some a, st\<lparr>isLoading := True\<rparr>)"
    using Some by (simp add: getRawStockData_def)
  have u: "dataUsed sampleData st = a"
    using Some by (simp add: dataUsed_def)
  show ?thesis
    unfolding updateChartV2_def Let_def g u e by simp
qed

lemma updateChartV2_completion:
  "fst (updateChartV2 sampleData p st) =
     (case valuation (dataUsed sampleData st) p of Inl e \<Rightarrow> Some e | Inr w \<Rightarrow> None)"
  by (simp add: updateChartV2_dataUsed Let_def split: sum.splits)

lemma updateChartV2_chartSeries:
  "chartSeries (snd (updateChartV2 sampleData p st)) =
     (case valuation (dataUsed sampleData st) p of
        Inl e \<Rightarrow> chartSeries st
      | Inr w \<Rightarrow> Some (map (newChartSeries w) (stockSymbols p @ [''Total''])))"
  by (simp add: updateChartV2_dataUsed Let_def checkRetrieved_fields split: sum.splits)

lemma updateChartV2_cache:
  "rawStockData (snd (updateChartV2 sampleData p st)) = Some (dataUsed sampleData st)"
  by (simp add: updateChartV2_dataUsed Let_def checkRetrieved_fields split: sum.splits)

lemma dataUsed_after:
  "dataUsed sampleData (snd (updateChartV2 sampleData p st)) = dataUsed sampleData st"
  by (simp add: dataUsed_def [of sampleData "snd (updateChartV2 sampleData p st)"]
      updateChartV2_cache)

text \<open>
  When the payload of a symbol is missing, or has no quotes, the function throws: it
  leaves no series, the chart is not shown, and \<^verbatim>\<open>isLoading\<close> stays set.
\<close>

lemma updateChartV2_not_retrieved:
  assumes "\<not> retrieved (dataUsed sampleData st) p"
  shows "fst (updateChartV2 sampleData p st) = Some TypeError"
    and "chartSeries (snd (updateChartV2 sampleData p st)) = chartSeries st"
    and "chartLoaded (snd (updateChartV2 sampleData p st)) = chartLoaded st"
    and "isLoading (snd (updateChartV2 sampleData p st)) = True"
  using valuation_throws [OF assms]
  by (simp_all add: updateChartV2_dataUsed Let_def checkRetrieved_fields)

text \<open>
  C6 at the failing input. The payload of \<open>X\<close> has the status \<^verbatim>\<open>"error"\<close>; the function sets
  the message, goes on, completes, and hands the chart both series.
\<close>

theorem status_not_ok_still_charts:
  "fst (updateChartV2 dataXError planX initialState) = None \<and>
   errMsg (snd (updateChartV2 dataXError planX initialState)) =
     ''Sorry, but data could not be retrieved for every stock in your portfolio.'' \<and>
   chartLoaded (snd (updateChartV2 dataXError planX initialState)) = True \<and>
   isLoading (snd (updateChartV2 dataXError planX initialState)) = False \<and>
   chartSeries (snd (updateChartV2 dataXError planX initialState)) =
     Some [Some \<lparr>series_name = ''X'', series_type = ''area'',
                  series_data = [\<lparr>point_x = 1, point_y = ''1000.00''\<rparr>,
                                 \<lparr>point_x = 2, point_y = ''1500.00''\<rparr>]\<rparr>,
           Some \<lparr>series_name = ''Total'', series_type = ''area'',
                  series_data = [\<lparr>point_x = 1, point_y = ''1000.00''\<rparr>,
                                 \<lparr>point_x = 2, point_y = ''1500.00''\<rparr>]\<rparr>]"
proof -
  have used: "dataUsed dataXError (initialState :: nat cstate) = dataXError"
    by (simp add: dataUsed_def initialState_def)
  have syms: "stockSymbols planX = [''X'']"
    by (simp add: stockSymbols_def planX_def)
  have q: "quotes dataXError ''X'' = [\<lparr>datetime = 2, close = 150\<rparr>, \<lparr>datetime = 1, close = 100\<rparr>]"
    by (simp add: quotes_def dataXError_def)
  have r: "retrieved dataXError planX"
    by (simp add: retrieved_def planX_def q)
  have d: "distinct (stockSymbols planX)"
    by (simp add: syms)
  have tl: "timeline dataXError planX = [1, 2]"
    by code_simp
  have sh: "sharesFor dataXError planX ''X'' = Some 10"
    by (simp add: sharesFor_def allocate_def buyShares_def dataXError_def planX_def)
  have val: "valueOn (byDateOf dataXError [''X''] (sharesFor dataXError planX)) ''X'' =
      [2 \<mapsto> 1500, 1 \<mapsto> 1000]"
    by (simp add: valueOn_def byDateOf_def q sh fun_eq_iff)
  have fx: "toFixed2 1000 = ''1000.00''" "toFixed2 1500 = ''1500.00''"
    by (simp_all add: toFixed2_def cents_def Let_def floor_rat_numeral decimal_small decimal_large
        digitChar_def)
  from valuation_walked [OF r d] obtain sb w where
    sb: "allocate dataXError planX = Inr sb"
    and v: "valuation dataXError planX = Inr w"
    and w: "w = walked (byDateOf dataXError (stockSymbols planX) sb) (stockSymbols planX)
                  (timeline dataXError planX)"
    by metis
  have sb': "sb = sharesFor dataXError planX"
    using sharesFor_allocate [OF sb] by simp
  have "[0..<2] = [0, Suc 0]"
    by (simp add: numeral_2_eq_2)
  then have series:
    "newChartSeries w ''X'' =
       Some \<lparr>series_name = ''X'', series_type = ''area'',
                  series_data = [\<lparr>point_x = 1, point_y = ''1000.00''\<rparr>,
                                 \<lparr>point_x = 2, point_y = ''1500.00''\<rparr>]\<rparr>"
    "newChartSeries w ''Total'' =
       Some \<lparr>series_name = ''Total'', series_type = ''area'',
                  series_data = [\<lparr>point_x = 1, point_y = ''1000.00''\<rparr>,
                                 \<lparr>point_x = 2, point_y = ''1500.00''\<rparr>]\<rparr>"
    unfolding w sb' syms tl
    by (simp_all add: walked_def pointsOf_symbol pointsOf_Total totalAt_def carried_def val fx)
  have msg: "errMsg (checkRetrieved dataXError [''X''] st) =
      ''Sorry, but data could not be retrieved for every stock in your portfolio.''"
    for st :: "nat cstate"
    by (simp add: checkRetrieved_def checkSymbol_def dataXError_def)
  show ?thesis
    unfolding updateChartV2_dataUsed used Let_def v
    by (simp add: series msg syms checkRetrieved_fields)
qed

text \<open>
  C9. A second run of \<^verbatim>\<open>updateChartV2\<close>, on the state the first run has left, ends as the
  first did and leaves the same chart series. And of the state a run starts in, only the
  cached data matters: whatever the other cells hold, the run ends the same way and, when
  it completes, leaves the same chart series.
\<close>

theorem update_is_repeatable:
  fixes sampleData :: "('d::linorder) stockData"
  shows "fst (updateChartV2 sampleData p (snd (updateChartV2 sampleData p st))) =
           fst (updateChartV2 sampleData p st) \<and>
         chartSeries (snd (updateChartV2 sampleData p (snd (updateChartV2 sampleData p st)))) =
           chartSeries (snd (updateChartV2 sampleData p st)) \<and>
         fst (updateChartV2 sampleData p
                (st\<lparr>isLoading := l, chartLoaded := c, chartSeries := cs, finalTotalValue := t,
                    finalStockValues := vs, errMsg := m\<rparr>)) =
           fst (updateChartV2 sampleData p st) \<and>
         (case fst (updateChartV2 sampleData p st) of
            Some e \<Rightarrow> True
          | None \<Rightarrow>
              chartSeries (snd (updateChartV2 sampleData p
                (st\<lparr>isLoading := l, chartLoaded := c, chartSeries := cs, finalTotalValue := t,
                    finalStockValues := vs, errMsg := m\<rparr>))) =
              chartSeries (snd (updateChartV2 sampleData p st)))"
proof -
  let ?st' = "st\<lparr>isLoading := l, chartLoaded := c, chartSeries := cs, finalTotalValue := t,
                    finalStockValues := vs, errMsg := m\<rparr>"
  have same: "dataUsed sampleData ?st' = dataUsed sampleData st"
    by (simp add: dataUsed_def)
  have "fst (updateChartV2 sampleData p (snd (updateChartV2 sampleData p st))) =
           fst (updateChartV2 sampleData p st)"
    by (simp only: updateChartV2_completion dataUsed_after)
  moreover have "chartSeries (snd (updateChartV2 sampleData p (snd (updateChartV2 sampleData p st)))) =
           chartSeries (snd (updateChartV2 sampleData p st))"
    unfolding updateChartV2_chartSeries [of sampleData p "snd (updateChartV2 sampleData p st)"]
      dataUsed_after
    by (simp add: updateChartV2_chartSeries split: sum.splits)
  moreover have "fst (updateChartV2 sampleData p ?st') = fst (updateChartV2 sampleData p st)"
    by (simp only: updateChartV2_completion same)
  moreover have "(case fst (updateChartV2 sampleData p st) of
            Some e \<Rightarrow> True
          | None \<Rightarrow>
              chartSeries (snd (updateChartV2 sampleData p ?st')) =
              chartSeries (snd (updateChartV2 sampleData p st)))"
    unfolding updateChartV2_completion updateChartV2_chartSeries same
    by (simp split: sum.splits)
  ultimately show ?thesis by blast
qed

subsection \<open>A symbol named Total\<close>

lemma planTotal_symbols: "stockSymbols planTotal = [''Total'', ''B'']"
  by (simp add: stockSymbols_def planTotal_def)

lemma dataTotal_quotes:
  "quotes dataTotal ''Total'' = [\<lparr>datetime = 1, close = 10\<rparr>]"
  "quotes dataTotal ''B'' = [\<lparr>datetime = 2, close = 6\<rparr>, \<lparr>datetime = 1, close = 5\<rparr>]"
  by (simp_all add: quotes_def dataTotal_def)

lemma dataTotal_retrieved: "retrieved dataTotal planTotal"
  by (simp add: retrieved_def planTotal_def dataTotal_quotes)

lemma dataTotal_shares:
  "sharesFor dataTotal planTotal ''Total'' = Some 10"
  "sharesFor dataTotal planTotal ''B'' = Some 20"
  by (simp_all add: sharesFor_def allocate_def buyShares_def dataTotal_def planTotal_def)

lemma dataTotal_timeline: "timeline dataTotal planTotal = [1, 2]"
  by code_simp

lemma dataTotal_valueOn:
  "valueOn (byDateOf dataTotal [''Total'', ''B''] (sharesFor dataTotal planTotal)) ''Total'' = [1 \<mapsto> 100]"
  "valueOn (byDateOf dataTotal [''Total'', ''B''] (sharesFor dataTotal planTotal)) ''B'' = [2 \<mapsto> 120, 1 \<mapsto> 100]"
  by (simp_all add: valueOn_def byDateOf_def dataTotal_quotes dataTotal_shares fun_eq_iff)

text \<open>
  The symbol's point of \<open>d1\<close> and the points of the total of \<open>d1\<close> and \<open>d2\<close> go to the one
  entry \<open>Total\<close>.
\<close>

lemma dataTotal_series:
  "seriesData dataTotal planTotal ''Total'' =
     Some [\<lparr>point_x = 1, point_y = ''100.00''\<rparr>, \<lparr>point_x = 1, point_y = ''200.00''\<rparr>,
           \<lparr>point_x = 2, point_y = ''220.00''\<rparr>]"
proof -
  have "[0..<2] = [0, Suc 0]"
    by (simp add: numeral_2_eq_2)
  then show ?thesis
    by (simp add: seriesData_pointsOf [OF dataTotal_retrieved] planTotal_symbols dataTotal_timeline
        pointsOf_def emitted_def totalAt_def carried_def dataTotal_valueOn toFixed2_examples)
qed

text \<open>
  On this plan the union of the dates is \<open>d1\<close>, \<open>d2\<close>, and the series of the total has
  three points, two of them on \<open>d1\<close>: not one point for each date, and not strictly
  ascending.
\<close>

theorem total_points_are_date_union_counterexample:
  "timeline dataTotal planTotal = [1, 2] \<and>
   (\<exists>pts. seriesData dataTotal planTotal ''Total'' = Some pts \<and> length pts = 3 \<and>
      map point_x pts = [1, 1, 2] \<and> \<not> sorted_wrt (<) (map point_x pts))"
  using dataTotal_timeline dataTotal_series by simp

text \<open>
  The only quote of the symbol \<open>Total\<close> of this plan is on \<open>d1\<close>, and its series has two
  points on \<open>d1\<close> and one on \<open>d2\<close>, where the symbol has no quote.
\<close>

theorem symbol_points_are_own_dates_counterexample:
  "''Total'' \<in> set (stockSymbols planTotal) \<and>
   datetime ` set (quotes dataTotal ''Total'') = {1} \<and>
   (\<exists>pts. seriesData dataTotal planTotal ''Total'' = Some pts \<and>
      point_x ` set pts = {1, 2} \<and> \<not> distinct (map point_x pts))"
  using dataTotal_series by (auto simp: planTotal_symbols dataTotal_quotes)

end
